theory Spec2Isabelle
  imports Main "HOL-Library.Char_ord" "HOL-Library.List_Lexorder" "HOL-Library.Sublist"
begin

section \<open>JavaScript values, errors and strings\<close>

text \<open>
  The module \<^verbatim>\<open>src/index.js\<close> is JavaScript. A \<^verbatim>\<open>throw\<close> (and a rejected promise) is
  the left summand of a result type \<open>error + 'a\<close>. \<open>TypeError\<close> is what the runtime
  raises on a property access on \<^verbatim>\<open>null\<close> or \<^verbatim>\<open>undefined\<close>; \<open>Error msg\<close> is
  \<^verbatim>\<open>new Error(msg)\<close>, also used for what a library throws.
\<close>

datatype error = TypeError | Error string

text \<open>
  The dynamically typed values that flow through the module: decoded event arguments,
  filter parameters, topics and the numeric fields of a raw log. \<open>JNum\<close> is an
  integer-valued JavaScript number of magnitude below \<open>2 ^ 53\<close> (fractions, infinities
  and \<^verbatim>\<open>NaN\<close> are not values of this type); \<open>JBig\<close> is an ethers \<^verbatim>\<open>BigNumber\<close> object.
  \<open>JProto k\<close> is the member that every plain object inherits from \<^verbatim>\<open>Object.prototype\<close>
  under the name \<open>k\<close>: a native function, or for \<^verbatim>\<open>__proto__\<close> the prototype object.
\<close>

datatype jsval =
    JUndefined
  | JNull
  | JBool bool
  | JNum int
  | JStr string
  | JBig int
  | JArr "jsval list"
  | JProto string

text \<open>A JavaScript number that may be \<^verbatim>\<open>NaN\<close>, as \<^verbatim>\<open>Number(...)\<close> returns it.\<close>

datatype js_number = Finite int | NaN

text \<open>Truthiness, as \<^verbatim>\<open>if (v)\<close>, \<^verbatim>\<open>v ? a : b\<close>, \<^verbatim>\<open>v || d\<close> and \<^verbatim>\<open>_.identity\<close> used as a
  predicate test it. Objects (a \<^verbatim>\<open>BigNumber\<close>, an array) are always truthy.\<close>

fun truthy :: "jsval \<Rightarrow> bool" where
  "truthy JUndefined = False"
| "truthy JNull = False"
| "truthy (JBool b) = b"
| "truthy (JNum n) = (n \<noteq> 0)"
| "truthy (JStr s) = (s \<noteq> [])"
| "truthy (JBig n) = True"
| "truthy (JArr xs) = True"
| "truthy (JProto k) = True"

subsection \<open>Decimal and hexadecimal numerals\<close>

definition digit_char :: "nat \<Rightarrow> char" where
  "digit_char d = (if d < 10 then char_of (48 + d) else char_of (87 + d))"

function dec_digits :: "nat \<Rightarrow> string" where
  "dec_digits n = (if n < 10 then [digit_char n] else dec_digits (n div 10) @ [digit_char (n mod 10)])"
  by pat_completeness auto
termination
  by (relation "measure id") auto

declare dec_digits.simps [simp del]

function hex_digits :: "nat \<Rightarrow> string" where
  "hex_digits n = (if n < 16 then [digit_char n] else hex_digits (n div 16) @ [digit_char (n mod 16)])"
  by pat_completeness auto
termination
  by (relation "measure id") auto

declare hex_digits.simps [simp del]

text \<open>\<^verbatim>\<open>Number.prototype.toString()\<close> and \<^verbatim>\<open>BigNumber.prototype.toString()\<close> on an integer.\<close>

definition int_toString :: "int \<Rightarrow> string" where
  "int_toString i = (if i < 0 then CHR ''-'' # dec_digits (nat (- i)) else dec_digits (nat i))"

text \<open>\<^verbatim>\<open>Array.prototype.join(sep)\<close> on an array of strings.\<close>

fun join :: "string \<Rightarrow> string list \<Rightarrow> string" where
  "join sep [] = []"
| "join sep [x] = x"
| "join sep (x # y # ys) = x @ sep @ join sep (y # ys)"

text \<open>
  \<^verbatim>\<open>v.toString()\<close>. Reading \<^verbatim>\<open>.toString\<close> off \<^verbatim>\<open>null\<close> or \<^verbatim>\<open>undefined\<close> raises a
  \<^verbatim>\<open>TypeError\<close>. An array joins its elements with a comma, \<^verbatim>\<open>null\<close> and \<^verbatim>\<open>undefined\<close>
  elements giving the empty string. A native function prints as V8 prints it, the
  function under \<^verbatim>\<open>constructor\<close> being \<^verbatim>\<open>Object\<close>.
\<close>

fun toString :: "jsval \<Rightarrow> error + string" where
  "toString JUndefined = Inl TypeError"
| "toString JNull = Inl TypeError"
| "toString (JBool b) = Inr (if b then ''true'' else ''false'')"
| "toString (JNum n) = Inr (int_toString n)"
| "toString (JStr s) = Inr s"
| "toString (JBig n) = Inr (int_toString n)"
| "toString (JArr xs) =
     Inr (join '','' (map (\<lambda>x. case toString x of Inl e \<Rightarrow> [] | Inr s \<Rightarrow> s) xs))"
| "toString (JProto k) =
     Inr (if k = ''__proto__'' then ''[object Object]''
          else ''function '' @ (if k = ''constructor'' then ''Object'' else k) @ ''() { [native code] }'')"

text \<open>\<^verbatim>\<open>String.prototype.toLowerCase()\<close>; a \<open>char\<close> is a byte, so only \<^verbatim>\<open>A\<close>..\<^verbatim>\<open>Z\<close> change.\<close>

definition lower_char :: "char \<Rightarrow> char" where
  "lower_char c = (let n = (of_char c :: nat) in if 65 \<le> n \<and> n \<le> 90 then char_of (n + 32) else c)"

definition toLowerCase :: "string \<Rightarrow> string" where
  "toLowerCase s = map lower_char s"

text \<open>\<^verbatim>\<open>_.startsWith(string, target)\<close>.\<close>

definition startsWith :: "string \<Rightarrow> string \<Rightarrow> bool" where
  "startsWith s target = (take (length target) s = target)"

subsection \<open>Reading numerals\<close>

definition digit_value :: "char \<Rightarrow> nat option" where
  "digit_value c =
     (let n = (of_char c :: nat) in
      if 48 \<le> n \<and> n \<le> 57 then Some (n - 48)
      else if 97 \<le> n \<and> n \<le> 102 then Some (n - 87)
      else if 65 \<le> n \<and> n \<le> 70 then Some (n - 55)
      else None)"

fun parse_digits :: "nat \<Rightarrow> nat \<Rightarrow> string \<Rightarrow> nat option" where
  "parse_digits b acc [] = Some acc"
| "parse_digits b acc (c # cs) =
     (case digit_value c of
        None \<Rightarrow> None
      | Some d \<Rightarrow> if d < b then parse_digits b (acc * b + d) cs else None)"

definition parse_numeral :: "nat \<Rightarrow> string \<Rightarrow> js_number" where
  "parse_numeral b ds =
     (if ds = [] then NaN
      else case parse_digits b 0 ds of None \<Rightarrow> NaN | Some n \<Rightarrow> Finite (int n))"

definition negate :: "js_number \<Rightarrow> js_number" where
  "negate x = (case x of NaN \<Rightarrow> NaN | Finite n \<Rightarrow> Finite (- n))"

text \<open>
  \<^verbatim>\<open>Number(v)\<close> where \<open>v\<close> is \<^verbatim>\<open>undefined\<close> (\<open>None\<close>) or a string. The empty string is
  \<open>0\<close>; a decimal integer with an optional sign and a \<^verbatim>\<open>0x\<close> integer are read. Every
  other string is \<^verbatim>\<open>NaN\<close> here: surrounding white space, fractions, exponents,
  \<^verbatim>\<open>Infinity\<close> and \<^verbatim>\<open>0o\<close>/\<^verbatim>\<open>0b\<close> literals, which JavaScript also reads, are outside this
  model, as is the rounding of integers beyond \<open>2 ^ 53\<close>.
\<close>

fun Number :: "string option \<Rightarrow> js_number" where
  "Number None = NaN"
| "Number (Some []) = Finite 0"
| "Number (Some (c # cs)) =
     (if c = CHR ''0'' \<and> cs \<noteq> [] \<and> (hd cs = CHR ''x'' \<or> hd cs = CHR ''X'') then parse_numeral 16 (tl cs)
      else if c = CHR ''-'' then negate (parse_numeral 10 cs)
      else if c = CHR ''+'' then parse_numeral 10 cs
      else parse_numeral 10 (c # cs))"

section \<open>The lodash functions the module calls\<close>

text \<open>
  A JavaScript object used as a dictionary is an association list in the object's
  enumeration order; its keys are distinct. \<open>map_of kvs k\<close> reads the property \<open>k\<close>,
  \<open>None\<close> standing for \<^verbatim>\<open>undefined\<close>, where the key cannot be the name of an inherited
  member: \<^verbatim>\<open>length\<close>, or an address.
\<close>

type_synonym 'v object = "(string \<times> 'v) list"

text \<open>
  The read \<^verbatim>\<open>object[key]\<close> on a plain object, for any key. A key that the object does not
  have itself is looked up on \<^verbatim>\<open>Object.prototype\<close>, whose members are the names below.
\<close>

definition prototype_keys :: "string list" where
  "prototype_keys =
     [''constructor'', ''hasOwnProperty'', ''isPrototypeOf'', ''propertyIsEnumerable'',
      ''toLocaleString'', ''toString'', ''valueOf'', ''__proto__'',
      ''__defineGetter__'', ''__defineSetter__'', ''__lookupGetter__'', ''__lookupSetter__'']"

datatype 'v property = Own 'v | Inherited string | Missing

definition js_get :: "'v object \<Rightarrow> string \<Rightarrow> 'v property" where
  "js_get obj key =
     (case map_of obj key of
        Some v \<Rightarrow> Own v
      | None \<Rightarrow> if key \<in> set prototype_keys then Inherited key else Missing)"

text \<open>\<^verbatim>\<open>_.range(end)\<close>: \<open>0, 1, ...\<close> up to but excluding a positive \<open>end\<close>, \<open>0, -1, ...\<close>
  down to but excluding a negative one, empty for \<open>0\<close> and \<^verbatim>\<open>NaN\<close>.\<close>

fun range_to :: "js_number \<Rightarrow> int list" where
  "range_to NaN = []"
| "range_to (Finite n) =
     (if 0 \<le> n then map int [0..<nat n] else map (\<lambda>i. - int i) [0..<nat (- n)])"

text \<open>\<^verbatim>\<open>_.mapValues(object, f)\<close>, with a callback that may throw: the first throw aborts.\<close>

fun mapValues :: "('a \<Rightarrow> error + 'b) \<Rightarrow> 'a object \<Rightarrow> error + 'b object" where
  "mapValues f [] = Inr []"
| "mapValues f ((k, v) # kvs) =
     (case f v of
        Inl e \<Rightarrow> Inl e
      | Inr w \<Rightarrow> (case mapValues f kvs of Inl e \<Rightarrow> Inl e | Inr r \<Rightarrow> Inr ((k, w) # r)))"

text \<open>\<^verbatim>\<open>_.pickBy(object, predicate)\<close>; the predicate receives \<open>(value, key)\<close>.\<close>

definition pickBy :: "('v \<Rightarrow> string \<Rightarrow> bool) \<Rightarrow> 'v object \<Rightarrow> 'v object" where
  "pickBy p kvs = filter (\<lambda>(k, v). p v k) kvs"

text \<open>\<^verbatim>\<open>_.includes(array, value)\<close>.\<close>

definition js_includes :: "'a list \<Rightarrow> 'a \<Rightarrow> bool" where
  "js_includes xs x = (x \<in> set xs)"

text \<open>\<^verbatim>\<open>_.compact(array)\<close> on an array of records and \<^verbatim>\<open>null\<close>s: the \<^verbatim>\<open>null\<close>s go.\<close>

fun compact :: "'a option list \<Rightarrow> 'a list" where
  "compact [] = []"
| "compact (None # xs) = compact xs"
| "compact (Some x # xs) = x # compact xs"

section \<open>Raw logs, the decoder and the normalised record\<close>

record raw_log =
  l_address :: string
  l_topics :: "string list"
  l_data :: string
  l_blockNumber :: jsval
  l_transactionHash :: string
  l_removed :: bool
  l_transactionIndex :: jsval
  l_logIndex :: jsval

text \<open>What \<^verbatim>\<open>abiInterface.parseLog(log)\<close> returns when it returns an object.\<close>

record parsed_log =
  p_name :: string
  p_signature :: string
  p_topic :: string
  p_values :: "jsval object"

text \<open>An entry of \<^verbatim>\<open>abiInterface.events\<close>: the event's name and the names of its inputs.\<close>

record event_fragment =
  f_name :: string
  f_inputs :: "string list"

text \<open>
  The ethers library is not part of the repository; the module meets it through the
  members below, which are parameters of the model. \<open>parseLog\<close> may throw, return
  \<^verbatim>\<open>null\<close> (\<open>None\<close>) or return a description.
\<close>

record abi_interface =
  parseLog :: "raw_log \<Rightarrow> error + parsed_log option"
  events :: "event_fragment object"
  encodeFilterTopics :: "string \<Rightarrow> jsval list \<Rightarrow> error + jsval list"

record 'abi ethers =
  Interface :: "'abi \<Rightarrow> error + abi_interface"
  BigNumber_toNumber :: "jsval \<Rightarrow> error + int"

text \<open>The record \<^verbatim>\<open>parseEventLog\<close> returns.\<close>

record normalized_log =
  e_address :: string
  e_topics :: "string list"
  e_data :: string
  e_blockNumber :: int
  e_transactionIndex :: int
  e_logIndex :: int
  e_transactionHash :: string
  e_removed :: bool
  e_name :: string
  e_signature :: string
  e_topic :: string
  e_values :: "string object"

section \<open>parseEventLog\<close>

text \<open>The callback of \<^verbatim>\<open>_.mapValues\<close> at lines 23 to 27: \<^verbatim>\<open>(v.toString ? v.toString() : v) || ''\<close>,
  lowercased when it starts with \<^verbatim>\<open>0x\<close>. Every value of \<open>jsval\<close> other than \<^verbatim>\<open>null\<close> and
  \<^verbatim>\<open>undefined\<close> has a \<^verbatim>\<open>toString\<close>.\<close>

definition stringVal :: "jsval \<Rightarrow> error + string" where
  "stringVal v =
     (case toString v of
        Inl e \<Rightarrow> Inl e
      | Inr s \<Rightarrow>
          (let s' = (if s \<noteq> [] then s else []) in
           Inr (if startsWith s' ''0x'' then toLowerCase s' else s')))"

text \<open>Line 28: \<^verbatim>\<open>_.range(Number(parsedLogValues.length)).map(p => p.toString())\<close>.\<close>

definition argumentRange :: "string object \<Rightarrow> string list" where
  "argumentRange parsedLogValues = map int_toString (range_to (Number (map_of parsedLogValues ''length'')))"

text \<open>Lines 10 to 49. A throw of \<^verbatim>\<open>parseLog\<close> is caught and gives \<^verbatim>\<open>null\<close>; a throw after
  the \<^verbatim>\<open>try\<close> block leaves the function.\<close>

definition parseEventLog :: "'abi ethers \<Rightarrow> raw_log \<Rightarrow> abi_interface \<Rightarrow> error + normalized_log option" where
  "parseEventLog eth log abiInterface =
     (case parseLog abiInterface log of
        Inl e \<Rightarrow> Inr None
      | Inr None \<Rightarrow> Inr None
      | Inr (Some parsedLog) \<Rightarrow>
          (case mapValues stringVal (p_values parsedLog) of
             Inl e \<Rightarrow> Inl e
           | Inr parsedLogValues \<Rightarrow>
               (let formattedLogValues =
                      pickBy (\<lambda>param key. \<not> js_includes (argumentRange parsedLogValues) key \<and> key \<noteq> ''length'')
                        parsedLogValues
                in case BigNumber_toNumber eth (l_blockNumber log) of
                     Inl e \<Rightarrow> Inl e
                   | Inr bn \<Rightarrow>
                       (case BigNumber_toNumber eth (l_transactionIndex log) of
                          Inl e \<Rightarrow> Inl e
                        | Inr ti \<Rightarrow>
                            (case BigNumber_toNumber eth (l_logIndex log) of
                               Inl e \<Rightarrow> Inl e
                             | Inr li \<Rightarrow>
                                 Inr (Some \<lparr>e_address = toLowerCase (l_address log),
                                            e_topics = l_topics log,
                                            e_data = l_data log,
                                            e_blockNumber = bn,
                                            e_transactionIndex = ti,
                                            e_logIndex = li,
                                            e_transactionHash = l_transactionHash log,
                                            e_removed = l_removed log,
                                            e_name = p_name parsedLog,
                                            e_signature = p_signature parsedLog,
                                            e_topic = p_topic parsedLog,
                                            e_values = formattedLogValues\<rparr>))))))"

section \<open>parseEventLogs and the cache of decoders\<close>

text \<open>\<^verbatim>\<open>array.map(f)\<close> with a callback that may throw: the first throw aborts the map.\<close>

fun array_map :: "('a \<Rightarrow> error + 'b) \<Rightarrow> 'a list \<Rightarrow> error + 'b list" where
  "array_map f [] = Inr []"
| "array_map f (x # xs) =
     (case f x of
        Inl e \<Rightarrow> Inl e
      | Inr y \<Rightarrow> (case array_map f xs of Inl e \<Rightarrow> Inl e | Inr ys \<Rightarrow> Inr (y # ys)))"

text \<open>The module-level object \<^verbatim>\<open>abiInterfaces\<close>: from an address to a decoder. Its keys
  are the addresses of logs, hexadecimal strings.\<close>

type_synonym cache = "string \<rightharpoonup> abi_interface"

text \<open>Line 68: \<^verbatim>\<open>_.compact(logs.map(log => parseEventLog(log, abiInterface)))\<close>.\<close>

definition compact_parsed :: "'abi ethers \<Rightarrow> abi_interface \<Rightarrow> raw_log list \<Rightarrow> error + normalized_log list" where
  "compact_parsed eth abiInterface logs =
     (case array_map (\<lambda>log. parseEventLog eth log abiInterface) logs of
        Inl e \<Rightarrow> Inl e
      | Inr rs \<Rightarrow> Inr (compact rs))"

text \<open>The function returns its result and the cache as it leaves it. The store into the
  cache at line 65 precedes the map at line 68, so it stands when the map throws.\<close>

definition parseEventLogs ::
  "'abi ethers \<Rightarrow> raw_log list \<Rightarrow> 'abi \<Rightarrow> cache \<Rightarrow> (error + normalized_log list) \<times> cache" where
  "parseEventLogs eth logs abi abiInterfaces =
     (case logs of
        [] \<Rightarrow> (Inr [], abiInterfaces)
      | firstLog # rest \<Rightarrow>
          (case abiInterfaces (l_address firstLog) of
             Some abiInterface \<Rightarrow> (compact_parsed eth abiInterface logs, abiInterfaces)
           | None \<Rightarrow>
               (case Interface eth abi of
                  Inl e \<Rightarrow> (Inl e, abiInterfaces)
                | Inr abiInterface \<Rightarrow>
                    (compact_parsed eth abiInterface logs,
                     abiInterfaces(l_address firstLog \<mapsto> abiInterface)))))"

section \<open>fetchLogs\<close>

text \<open>
  \<^verbatim>\<open>hexlify\<close> on a JavaScript number, as ethers defines it: a negative or unsafe number
  throws, \<open>0\<close> is \<^verbatim>\<open>0x00\<close>, any other number is its hexadecimal digits padded to an even
  count. \<^verbatim>\<open>hexStripZeros\<close> removes the zero digits that lead the string.
\<close>

definition hexlify :: "int \<Rightarrow> error + string" where
  "hexlify n =
     (if n < 0 \<or> 2 ^ 53 - 1 \<le> n then Inl (Error ''invalid hexlify value'')
      else if n = 0 then Inr ''0x00''
      else (let hex = hex_digits (nat n) in
            Inr (''0x'' @ (if odd (length hex) then CHR ''0'' # hex else hex))))"

definition isHexString :: "string \<Rightarrow> bool" where
  "isHexString s = (take 2 s = ''0x'' \<and> list_all (\<lambda>c. digit_value c \<noteq> None) (drop 2 s))"

definition hexStripZeros :: "string \<Rightarrow> error + string" where
  "hexStripZeros v =
     (if \<not> isHexString v then Inl (Error ''invalid hex string'')
      else Inr (''0x'' @ dropWhile (\<lambda>c. c = CHR ''0'') (drop 2 v)))"

text \<open>Lines 101 and 102: \<^verbatim>\<open>block ? hexStripZeros(hexlify(block)) : 'latest'\<close>. The block
  is \<^verbatim>\<open>undefined\<close> (\<open>None\<close>) or a number; the test is one of truthiness.\<close>

definition blockParam :: "int option \<Rightarrow> error + string" where
  "blockParam block =
     (case block of
        None \<Rightarrow> Inr ''latest''
      | Some n \<Rightarrow>
          if n \<noteq> 0 then (case hexlify n of Inl e \<Rightarrow> Inl e | Inr h \<Rightarrow> hexStripZeros h)
          else Inr ''latest'')"

text \<open>The object in \<^verbatim>\<open>logParams\<close>; \<open>q_address = None\<close> is \<^verbatim>\<open>address: undefined\<close>.\<close>

record log_params =
  q_address :: "string option"
  q_topics :: "jsval list"
  q_fromBlock :: string
  q_toBlock :: string

text \<open>\<^verbatim>\<open>contractAddress || undefined\<close>.\<close>

definition or_undefined :: "string option \<Rightarrow> string option" where
  "or_undefined a = (case a of None \<Rightarrow> None | Some s \<Rightarrow> if s \<noteq> [] then Some s else None)"

text \<open>Lines 92 to 104.\<close>

definition fetchLogs_logParams :: "string option \<Rightarrow> jsval \<Rightarrow> int option \<Rightarrow> int option \<Rightarrow> error + log_params" where
  "fetchLogs_logParams contractAddress topic fromBlock toBlock =
     (case blockParam fromBlock of
        Inl e \<Rightarrow> Inl e
      | Inr fb \<Rightarrow>
          (case blockParam toBlock of
             Inl e \<Rightarrow> Inl e
           | Inr tb \<Rightarrow>
               Inr \<lparr>q_address = or_undefined contractAddress,
                    q_topics = (case topic of JArr ts \<Rightarrow> ts | t \<Rightarrow> [t]),
                    q_fromBlock = fb,
                    q_toBlock = tb\<rparr>))"

text \<open>
  What a parser supplied by the caller is applied to: the array of records in
  \<^verbatim>\<open>fetchLogs\<close>, the single record or \<^verbatim>\<open>null\<close> in \<^verbatim>\<open>subscribe\<close>. What a callback or the
  caller of \<^verbatim>\<open>fetchLogs\<close> receives is an array of records and \<^verbatim>\<open>null\<close>s, or what the
  parser returned.
\<close>

datatype parser_arg = LogList "normalized_log list" | OneLog "normalized_log option"

datatype 'r payload = Sequence "normalized_log option list" | Transformed 'r

datatype 'a promise = Pending | Rejected error | Resolved 'a

text \<open>
  The interaction with the outside: a request for logs, sent through the provider when
  one is given (\<^verbatim>\<open>getProviderLogs\<close>) and through \<^verbatim>\<open>web3Provider\<close> otherwise
  (\<^verbatim>\<open>getLogs\<close>), and the timer of line 111 with its delay in milliseconds.
\<close>

datatype 'p io = Send "'p option" log_params | SetTimeout nat

text \<open>
  The transport is a script: the answers to the successive requests, \<open>Inl\<close> a rejection.
  When the script is used up the promise of \<^verbatim>\<open>fetchLogs\<close> is still pending. The result is
  the state of the promise, the cache and the interaction in order. The call of
  \<^verbatim>\<open>console.log\<close> at line 109 is left out. The retry at line 113 passes no provider.
\<close>

fun fetchLogs ::
  "'abi ethers \<Rightarrow> string option \<Rightarrow> 'abi \<Rightarrow> jsval \<Rightarrow> int option \<Rightarrow> int option \<Rightarrow>
   (parser_arg \<Rightarrow> 'r) option \<Rightarrow> 'p option \<Rightarrow> cache \<Rightarrow> (error + raw_log list) list \<Rightarrow>
   'r payload promise \<times> cache \<times> 'p io list" where
  "fetchLogs eth contractAddress abi topic fromBlock toBlock parser provider abiInterfaces answers =
     (case fetchLogs_logParams contractAddress topic fromBlock toBlock of
        Inl e \<Rightarrow> (Rejected e, abiInterfaces, [])
      | Inr q \<Rightarrow>
          (case answers of
             [] \<Rightarrow> (Pending, abiInterfaces, [Send provider q])
           | Inl e # later \<Rightarrow>
               (case fetchLogs eth contractAddress abi topic fromBlock toBlock parser None abiInterfaces later of
                  (p, c, ios) \<Rightarrow> (p, c, Send provider q # SetTimeout 1000 # ios))
           | Inr logs # later \<Rightarrow>
               (case parseEventLogs eth logs abi abiInterfaces of
                  (Inl e, c) \<Rightarrow> (Rejected e, c, [Send provider q])
                | (Inr parsedEventLogs, c) \<Rightarrow>
                    (Resolved (case parser of
                                 Some f \<Rightarrow> Transformed (f (LogList parsedEventLogs))
                               | None \<Rightarrow> Sequence (map Some parsedEventLogs)),
                     c, [Send provider q]))))"

declare fetchLogs.simps [simp del]

section \<open>subscribe\<close>

text \<open>The filter of lines 125 to 135 after \<^verbatim>\<open>_.pickBy(..., _.identity)\<close>: a field is there
  only when its value is truthy.\<close>

record sub_params =
  s_address :: "string option"
  s_topics :: "jsval option"
  s_fromBlock :: "int option"

definition subscribe_logParams :: "string option \<Rightarrow> jsval \<Rightarrow> int option \<Rightarrow> sub_params" where
  "subscribe_logParams contractAddress topic fromBlock =
     \<lparr>s_address = or_undefined contractAddress,
      s_topics = (if truthy topic then Some topic else None),
      s_fromBlock = (case fromBlock of None \<Rightarrow> None | Some n \<Rightarrow> if n \<noteq> 0 then Some n else None)\<rparr>"

text \<open>\<^verbatim>\<open>subscribe\<close> up to the call of \<^verbatim>\<open>web3Provider.eth.subscribe('logs', logParams, ...)\<close>:
  the filter it subscribes with and the decoder its handler keeps. A throwing
  \<^verbatim>\<open>new Interface(abi)\<close> rejects the promise and nothing is subscribed.\<close>

definition subscribe ::
  "'abi ethers \<Rightarrow> string option \<Rightarrow> 'abi \<Rightarrow> jsval \<Rightarrow> int option \<Rightarrow> error + sub_params \<times> abi_interface" where
  "subscribe eth contractAddress abi topic fromBlock =
     (let logParams = subscribe_logParams contractAddress topic fromBlock in
      case Interface eth abi of
        Inl e \<Rightarrow> Inl e
      | Inr abiInterface \<Rightarrow> Inr (logParams, abiInterface))"

text \<open>The handler of lines 138 to 148 on a pushed log: what \<^verbatim>\<open>callback\<close> is invoked with,
  or the error that leaves the handler before \<^verbatim>\<open>callback\<close> is reached. The \<^verbatim>\<open>error\<close>
  argument is only logged.\<close>

definition on_log ::
  "'abi ethers \<Rightarrow> abi_interface \<Rightarrow> (parser_arg \<Rightarrow> 'r) option \<Rightarrow> raw_log \<Rightarrow> error + 'r payload" where
  "on_log eth abiInterface parser log =
     (case parser of
        Some f \<Rightarrow>
          (case parseEventLog eth log abiInterface of
             Inl e \<Rightarrow> Inl e
           | Inr parsedEventLog \<Rightarrow> Inr (Transformed (f (OneLog parsedEventLog))))
      | None \<Rightarrow>
          (case parseEventLog eth log abiInterface of
             Inl e \<Rightarrow> Inl e
           | Inr parsedEventLog \<Rightarrow> Inr (Sequence [parsedEventLog])))"

section \<open>EventTracker\<close>

text \<open>
  The descriptor passed to \<^verbatim>\<open>trackEvent\<close>. An absent field is \<open>None\<close>. \<open>fromBlock\<close> and
  \<open>backFillBlockCount\<close> hold the numbers that \<^verbatim>\<open>Number(...)\<close> gives for the fields. The
  callback and the two hooks have no part in what is computed and are not fields here.
\<close>

record ('abi, 'r) event_descriptor =
  d_name :: string
  d_contract :: "string option"
  d_abi :: 'abi
  d_params :: "jsval object option"
  d_parser :: "(parser_arg \<Rightarrow> 'r) option"
  d_backFillBlockCount :: "int option"
  d_fromBlock :: "int option"

text \<open>\<^verbatim>\<open>string.split(sep)\<close> with a separator of one character, and \<^verbatim>\<open>_.first\<close>.\<close>

fun split :: "char \<Rightarrow> string \<Rightarrow> string list" where
  "split sep [] = [[]]"
| "split sep (c # cs) =
     (if c = sep then [] # split sep cs
      else (case split sep cs of [] \<Rightarrow> [[c]] | x # xs \<Rightarrow> (c # x) # xs))"

definition js_first :: "'a list \<Rightarrow> 'a option" where
  "js_first xs = (case xs of [] \<Rightarrow> None | x # ys \<Rightarrow> Some x)"

text \<open>The iteratee of \<^verbatim>\<open>_.mapKeys\<close> at line 229, \<^verbatim>\<open>_.first(key.split('('))\<close>, used as a key.\<close>

definition baseName :: "string \<Rightarrow> string" where
  "baseName key = (case js_first (split CHR ''('' key) of None \<Rightarrow> ''undefined'' | Some k \<Rightarrow> k)"

text \<open>\<^verbatim>\<open>result[key] = value\<close> on an object: an existing key keeps its place.\<close>

fun assign :: "'v object \<Rightarrow> string \<Rightarrow> 'v \<Rightarrow> 'v object" where
  "assign [] k v = [(k, v)]"
| "assign ((k', v') # kvs) k v = (if k' = k then (k, v) # kvs else (k', v') # assign kvs k v)"

text \<open>\<^verbatim>\<open>_.mapKeys(object, iteratee)\<close>; the iteratee receives \<open>(value, key)\<close>.\<close>

definition mapKeys :: "('v \<Rightarrow> string \<Rightarrow> string) \<Rightarrow> 'v object \<Rightarrow> 'v object" where
  "mapKeys f obj = foldl (\<lambda>result (key, val). assign result (f val key) val) [] obj"

text \<open>\<^verbatim>\<open>_.uniq(array)\<close>: the first occurrence of each value, in the order of the array.\<close>

fun uniq_into :: "'a list \<Rightarrow> 'a list \<Rightarrow> 'a list" where
  "uniq_into seen [] = seen"
| "uniq_into seen (x # xs) = uniq_into (if x \<in> set seen then seen else seen @ [x]) xs"

definition uniq :: "'a list \<Rightarrow> 'a list" where
  "uniq xs = uniq_into [] xs"

text \<open>The names the message of line 234 lists: \<^verbatim>\<open>_.uniq(_.map(_.values(events), 'name'))\<close>.\<close>

definition possible_events :: "abi_interface \<Rightarrow> string list" where
  "possible_events abiInterface = uniq (map f_name (map snd (events abiInterface)))"

text \<open>Lines 225 to 242. \<^verbatim>\<open>paramsInputs || {}\<close> is the empty object for an absent
  \<open>params\<close>; \<^verbatim>\<open>_.pickBy(..., _.identity)\<close> keeps the entries whose value is truthy.
  \<^verbatim>\<open>mappedEvents\<close> and \<^verbatim>\<open>params\<close> are plain objects, so \<^verbatim>\<open>mappedEvents[name]\<close> and
  \<^verbatim>\<open>params[inputName]\<close> find an inherited member where the object has no such key. An
  inherited member is truthy and passes the test of line 232, it has no \<^verbatim>\<open>inputs\<close>, and
  \<^verbatim>\<open>abiEvent.inputs.map\<close> at line 238 raises a \<^verbatim>\<open>TypeError\<close>.\<close>

definition getEventTopics :: "'abi ethers \<Rightarrow> ('abi, 'r) event_descriptor \<Rightarrow> error + jsval list" where
  "getEventTopics eth event =
     (let paramsInputs = (case d_params event of None \<Rightarrow> [] | Some ps \<Rightarrow> ps);
          params = pickBy (\<lambda>v k. truthy v) paramsInputs
      in case Interface eth (d_abi event) of
           Inl e \<Rightarrow> Inl e
         | Inr abiInterface \<Rightarrow>
             (let mappedEvents = mapKeys (\<lambda>val key. baseName key) (events abiInterface) in
              case js_get mappedEvents (d_name event) of
                Missing \<Rightarrow>
                  Inl (Error (d_name event @ '' not an abi event, possible events are ''
                              @ join '', '' (possible_events abiInterface)))
              | Inherited k \<Rightarrow> Inl TypeError
              | Own abiEvent \<Rightarrow>
                  (let paramsArray =
                         map (\<lambda>inputName.
                                (let v = (case js_get params inputName of
                                            Missing \<Rightarrow> JUndefined
                                          | Inherited k \<Rightarrow> JProto k
                                          | Own v \<Rightarrow> v)
                                 in if v = JUndefined then JNull else v))
                             (f_inputs abiEvent)
                   in encodeFilterTopics abiInterface (d_name event) paramsArray)))"

text \<open>
  What \<^verbatim>\<open>subscribeToEvent\<close> sets off, in order: the hook \<^verbatim>\<open>onFetchingHistoricalEvents\<close>,
  the call \<^verbatim>\<open>fetchLogs(contractAddress, abi, topics, fromBlock, toBlock, parser)\<close> whose
  own run is \<open>fetchLogs\<close> above, and the subscription opened with its filter.
\<close>

datatype ('abi, 'r) effect =
    OnFetchingHistoricalEvents
  | FetchLogs "string option" 'abi jsval "int option" "int option" "(parser_arg \<Rightarrow> 'r) option"
  | EthSubscribe sub_params

text \<open>Lines 166 to 183, up to the call of \<^verbatim>\<open>fetchLogs\<close>.\<close>

definition fetchHistoricalLogs ::
  "string option \<Rightarrow> 'abi \<Rightarrow> jsval \<Rightarrow> int option \<Rightarrow> int option \<Rightarrow> (parser_arg \<Rightarrow> 'r) option \<Rightarrow>
   ('abi, 'r) effect list" where
  "fetchHistoricalLogs contractAddress abi topics fromBlock toBlock parser =
     [OnFetchingHistoricalEvents, FetchLogs contractAddress abi topics fromBlock toBlock parser]"

text \<open>Lines 185 to 223. The test of line 207 is one of truthiness: an override that is
  \<^verbatim>\<open>undefined\<close> or \<open>0\<close> skips the historical fetch. \<^verbatim>\<open>subscribe\<close> is not awaited, so its
  rejection does not leave \<^verbatim>\<open>subscribeToEvent\<close>.\<close>

definition subscribeToEvent ::
  "'abi ethers \<Rightarrow> ('abi, 'r) event_descriptor \<Rightarrow> int \<Rightarrow> error + ('abi, 'r) effect list" where
  "subscribeToEvent eth event blockNumber =
     (let fromBlockNumberOverride =
            (case d_fromBlock event of
               Some fb \<Rightarrow> Some fb
             | None \<Rightarrow>
                 (case d_backFillBlockCount event of
                    Some n \<Rightarrow> Some (blockNumber - n)
                  | None \<Rightarrow> None))
      in case getEventTopics eth event of
           Inl e \<Rightarrow> Inl e
         | Inr topics \<Rightarrow>
             Inr ((case fromBlockNumberOverride of
                     None \<Rightarrow> []
                   | Some start \<Rightarrow>
                       if start \<noteq> 0
                       then fetchHistoricalLogs (d_contract event) (d_abi event) (JArr topics)
                              (Some start) (Some blockNumber) (d_parser event)
                       else [])
                  @ (case subscribe eth (d_contract event) (d_abi event) (JArr topics) (Some blockNumber) of
                       Inl e \<Rightarrow> []
                     | Inr (logParams, abiInterface) \<Rightarrow> [EthSubscribe logParams])))"

text \<open>Lines 153 to 164. \<open>latestBlock\<close> is what \<^verbatim>\<open>fetchLatestBlock()\<close> settles to: a rejection
  or the \<^verbatim>\<open>number\<close> of the head block. The result is what the promise of \<^verbatim>\<open>trackEvent\<close>
  settles to, the tracker's \<^verbatim>\<open>trackedEvents\<close> and the effects set off.\<close>

definition trackEvent ::
  "'abi ethers \<Rightarrow> ('abi, 'r) event_descriptor list \<Rightarrow> ('abi, 'r) event_descriptor \<Rightarrow> error + int \<Rightarrow>
   (error + bool) \<times> ('abi, 'r) event_descriptor list \<times> ('abi, 'r) effect list" where
  "trackEvent eth trackedEvents event latestBlock =
     (case latestBlock of
        Inl e \<Rightarrow> (Inl e, trackedEvents, [])
      | Inr number \<Rightarrow>
          (let latestBlockNumber = number - 1 in
           case subscribeToEvent eth event latestBlockNumber of
             Inl e \<Rightarrow> (Inl e, trackedEvents, [])
           | Inr effects \<Rightarrow> (Inr True, trackedEvents @ [event], effects)))"

section \<open>Predicates used in the statements\<close>

text \<open>A decimal digit.\<close>

definition is_decimal :: "char \<Rightarrow> bool" where
  "is_decimal c = (48 \<le> (of_char c :: nat) \<and> (of_char c :: nat) \<le> 57)"

text \<open>Every decoded value is something other than \<^verbatim>\<open>null\<close> and \<^verbatim>\<open>undefined\<close>.\<close>

definition defined_values :: "parsed_log \<Rightarrow> bool" where
  "defined_values parsedLog = list_all (\<lambda>(k, v). v \<noteq> JUndefined \<and> v \<noteq> JNull) (p_values parsedLog)"

text \<open>\<^verbatim>\<open>ethers.BigNumber.from(x).toNumber()\<close> returns for the three numeric fields of the log.\<close>

definition coercible :: "'abi ethers \<Rightarrow> raw_log \<Rightarrow> bool" where
  "coercible eth log =
     (\<not> isl (BigNumber_toNumber eth (l_blockNumber log)) \<and>
      \<not> isl (BigNumber_toNumber eth (l_transactionIndex log)) \<and>
      \<not> isl (BigNumber_toNumber eth (l_logIndex log)))"

text \<open>The log decodes: \<^verbatim>\<open>parseLog\<close> returns a description, neither throwing nor
  returning \<^verbatim>\<open>null\<close>.\<close>

definition decodes :: "abi_interface \<Rightarrow> raw_log \<Rightarrow> bool" where
  "decodes abiInterface log =
     (case parseLog abiInterface log of Inl e \<Rightarrow> False | Inr None \<Rightarrow> False | Inr (Some p) \<Rightarrow> True)"

text \<open>The keys \<^verbatim>\<open>"0"\<close>, \<^verbatim>\<open>"1"\<close>, ... under which a decoder repeats \<open>k\<close> positional arguments.\<close>

definition index_keys :: "nat \<Rightarrow> string list" where
  "index_keys k = map (\<lambda>i. int_toString (int i)) [0..<k]"

text \<open>How \<open>s\<close> renders the decoded value \<open>v\<close> under the key \<open>k\<close>: the string form of \<open>v\<close>,
  lowercased when it begins with \<^verbatim>\<open>0x\<close>, under the same key.\<close>

definition renders :: "string \<times> jsval \<Rightarrow> string \<times> string \<Rightarrow> bool" where
  "renders kv ks =
     (fst ks = fst kv \<and>
      (\<exists>t. toString (snd kv) = Inr t \<and> snd ks = (if startsWith t ''0x'' then toLowerCase t else t)))"

section \<open>Example inputs\<close>

text \<open>An ERC-20 style decoder: a log whose first topic is the topic of \<^verbatim>\<open>Transfer\<close> decodes
  to the description below, a log without topics makes \<^verbatim>\<open>parseLog\<close> throw, any other log
  gives \<^verbatim>\<open>null\<close>. The filter encoder puts the topic of the event before the values.\<close>

definition ex_parsed :: parsed_log where
  "ex_parsed =
     \<lparr>p_name = ''Transfer'',
      p_signature = ''Transfer(address,address,uint256)'',
      p_topic = ''0xddf252ad'',
      p_values = [(''0'', JStr ''0xDEF''), (''1'', JStr ''0xGHI''), (''2'', JBig 1000),
                  (''from'', JStr ''0xDEF''), (''to'', JStr ''0xGHI''), (''amount'', JBig 1000),
                  (''length'', JNum 3)]\<rparr>"

definition ex_events :: "event_fragment object" where
  "ex_events =
     [(''Transfer(address,address,uint256)'', \<lparr>f_name = ''Transfer'', f_inputs = [''from'', ''to'', ''amount'']\<rparr>),
      (''Approval(address,address,uint256)'', \<lparr>f_name = ''Approval'', f_inputs = [''owner'', ''spender'', ''amount'']\<rparr>),
      (''Swap(uint256,address)'', \<lparr>f_name = ''Swap'', f_inputs = [''nonce'', ''signer'']\<rparr>)]"

definition ex_iface :: abi_interface where
  "ex_iface =
     \<lparr>parseLog = (\<lambda>log. case l_topics log of
                              [] \<Rightarrow> Inl (Error ''no matching event'')
                            | t # ts \<Rightarrow> if t = ''0xddf252ad'' then Inr (Some ex_parsed) else Inr None),
      events = ex_events,
      encodeFilterTopics = (\<lambda>n ps. Inr (JStr (''topic of '' @ n) # ps))\<rparr>"

text \<open>The library: the one interface description \<^verbatim>\<open>erc20\<close> is well formed; numbers and
  big numbers coerce to numbers.\<close>

definition ex_eth :: "string ethers" where
  "ex_eth =
     \<lparr>Interface = (\<lambda>abi. if abi = ''erc20'' then Inr ex_iface else Inl (Error ''invalid abi'')),
      BigNumber_toNumber = (\<lambda>v. case v of JNum n \<Rightarrow> Inr n | JBig n \<Rightarrow> Inr n
                                    | _ \<Rightarrow> Inl (Error ''invalid BigNumber value''))\<rparr>"

definition ex_log :: raw_log where
  "ex_log =
     \<lparr>l_address = ''0xABC'', l_topics = [''0xddf252ad''], l_data = ''0x03e8'',
      l_blockNumber = JNum 999, l_transactionHash = ''0x01'', l_removed = False,
      l_transactionIndex = JNum 0, l_logIndex = JNum 1\<rparr>"

text \<open>A log of another contract that the decoder does not know, and a log without topics.\<close>

definition ex_other_log :: raw_log where
  "ex_other_log = ex_log\<lparr>l_address := ''0xFFF'', l_topics := [''0x8c5be1e5'']\<rparr>"

definition ex_bad_log :: raw_log where
  "ex_bad_log = ex_log\<lparr>l_topics := []\<rparr>"

definition ex_record :: normalized_log where
  "ex_record =
     \<lparr>e_address = ''0xabc'', e_topics = [''0xddf252ad''], e_data = ''0x03e8'',
      e_blockNumber = 999, e_transactionIndex = 0, e_logIndex = 1,
      e_transactionHash = ''0x01'', e_removed = False,
      e_name = ''Transfer'', e_signature = ''Transfer(address,address,uint256)'',
      e_topic = ''0xddf252ad'',
      e_values = [(''from'', ''0xdef''), (''to'', ''0xghi''), (''amount'', ''1000'')]\<rparr>"

text \<open>Descriptors: an event the interface does not declare, and a transfer event.\<close>

definition ex_unknown :: "(string, unit) event_descriptor" where
  "ex_unknown =
     \<lparr>d_name = ''Mint'', d_contract = Some ''0xABC'', d_abi = ''erc20'', d_params = None,
      d_parser = None, d_backFillBlockCount = None, d_fromBlock = None\<rparr>"

definition ex_transfer :: "(string, unit) event_descriptor" where
  "ex_transfer =
     \<lparr>d_name = ''Transfer'', d_contract = Some ''0xABC'', d_abi = ''erc20'', d_params = None,
      d_parser = None, d_backFillBlockCount = Some 10, d_fromBlock = None\<rparr>"

text \<open>The same event tracked from the genesis block, \<^verbatim>\<open>fromBlock: 0\<close>.\<close>

definition ex_genesis :: "(string, unit) event_descriptor" where
  "ex_genesis = ex_transfer\<lparr>d_backFillBlockCount := None, d_fromBlock := Some 0\<rparr>"

text \<open>A filter on the swaps with nonce \<open>0\<close> of one signer.\<close>

definition ex_swap :: "(string, unit) event_descriptor" where
  "ex_swap =
     \<lparr>d_name = ''Swap'', d_contract = Some ''0xABC'', d_abi = ''erc20'',
      d_params = Some [(''nonce'', JNum 0), (''signer'', JStr ''0xAAA'')],
      d_parser = None, d_backFillBlockCount = None, d_fromBlock = None\<rparr>"

text \<open>A decoder for the one event \<^verbatim>\<open>Resized(uint256 length)\<close>. For the argument \<open>7\<close> it emits
  the positional duplicate under \<open>0\<close>; the named parameter and the count of the arguments
  both go under \<open>length\<close>, where the count, written last, stays.\<close>

definition ex_resized_parsed :: parsed_log where
  "ex_resized_parsed =
     \<lparr>p_name = ''Resized'', p_signature = ''Resized(uint256)'', p_topic = ''0x7a1c'',
      p_values = [(''0'', JBig 7), (''length'', JNum 1)]\<rparr>"

definition ex_resized_iface :: abi_interface where
  "ex_resized_iface =
     \<lparr>parseLog = (\<lambda>log. Inr (Some ex_resized_parsed)),
      events = [(''Resized(uint256)'', \<lparr>f_name = ''Resized'', f_inputs = [''length'']\<rparr>)],
      encodeFilterTopics = (\<lambda>n ps. Inr (JStr (''topic of '' @ n) # ps))\<rparr>"

text \<open>A descriptor whose event name no event declares and every object inherits.\<close>

definition ex_inherited :: "(string, unit) event_descriptor" where
  "ex_inherited = ex_unknown\<lparr>d_name := ''toString''\<rparr>"
section \<open>Numerals: printing and reading\<close>

lemma of_char_digit_char: "d < 16 \<Longrightarrow> (of_char (digit_char d) :: nat) = (if d < 10 then 48 + d else 87 + d)"
  by (simp add: digit_char_def)

lemma digit_value_digit_char: "d < 16 \<Longrightarrow> digit_value (digit_char d) = Some d"
  by (simp add: digit_value_def of_char_digit_char Let_def)

lemma parse_digits_snoc:
  "parse_digits b acc (xs @ [c]) =
     (case parse_digits b acc xs of
        None \<Rightarrow> None
      | Some m \<Rightarrow> (case digit_value c of None \<Rightarrow> None | Some d \<Rightarrow> if d < b then Some (m * b + d) else None))"
  by (induction xs arbitrary: acc) (auto split: option.splits)

lemma parse_dec_digits: "parse_digits 10 0 (dec_digits n) = Some n"
proof (induction n rule: dec_digits.induct)
  case (1 n)
  show ?case
  proof (cases "n < 10")
    case True
    then show ?thesis by (simp add: dec_digits.simps [of n] digit_value_digit_char)
  next
    case False
    with 1 have "parse_digits 10 0 (dec_digits (n div 10)) = Some (n div 10)" by simp
    with False show ?thesis
      by (simp add: dec_digits.simps [of n] parse_digits_snoc digit_value_digit_char)
  qed
qed

lemma is_decimal_digit_char: "d < 10 \<Longrightarrow> is_decimal (digit_char d)"
  by (simp add: is_decimal_def of_char_digit_char)

lemma dec_digits_decimal: "list_all is_decimal (dec_digits n)"
proof (induction n rule: dec_digits.induct)
  case (1 n)
  show ?case
  proof (cases "n < 10")
    case True
    then show ?thesis by (simp add: dec_digits.simps [of n] is_decimal_digit_char)
  next
    case False
    with 1 have "list_all is_decimal (dec_digits (n div 10))" by simp
    with False show ?thesis
      by (simp add: dec_digits.simps [of n] is_decimal_digit_char)
  qed
qed

lemma dec_digits_nonempty: "dec_digits n \<noteq> []"
  by (subst dec_digits.simps) simp

lemma Number_dec_digits: "Number (Some (dec_digits n)) = Finite (int n)"
proof -
  obtain c cs where eq: "dec_digits n = c # cs"
    using dec_digits_nonempty [of n] by (cases "dec_digits n") auto
  have all: "list_all is_decimal (c # cs)"
    using dec_digits_decimal [of n] eq by simp
  then have c: "c \<noteq> CHR ''-''" "c \<noteq> CHR ''+''"
    by (auto simp: is_decimal_def)
  have "cs \<noteq> [] \<Longrightarrow> hd cs \<noteq> CHR ''x'' \<and> hd cs \<noteq> CHR ''X''"
    using all by (cases cs) (auto simp: is_decimal_def)
  then have "Number (Some (c # cs)) = parse_numeral 10 (c # cs)"
    using c by auto
  then show ?thesis
    using parse_dec_digits [of n] by (simp add: eq parse_numeral_def)
qed

lemma startsWith_dec_digits: "\<not> startsWith (dec_digits n) ''0x''"
proof -
  have all: "list_all is_decimal (dec_digits n)" by (rule dec_digits_decimal)
  show ?thesis
  proof (cases "dec_digits n")
    case Nil
    then show ?thesis by (simp add: startsWith_def)
  next
    case (Cons c cs)
    with all show ?thesis
      by (cases cs) (auto simp: startsWith_def is_decimal_def)
  qed
qed

section \<open>Properties of parseEventLog\<close>

lemma toString_defined: "v \<noteq> JUndefined \<Longrightarrow> v \<noteq> JNull \<Longrightarrow> \<exists>t. toString v = Inr t"
  by (cases v) auto

lemma stringVal_toString:
  "toString v = Inr t \<Longrightarrow> stringVal v = Inr (if startsWith t ''0x'' then toLowerCase t else t)"
  by (simp add: stringVal_def)

lemma mapValues_stringVal:
  "list_all (\<lambda>(k, v). v \<noteq> JUndefined \<and> v \<noteq> JNull) kvs \<Longrightarrow>
   \<exists>pv. mapValues stringVal kvs = Inr pv \<and> list_all2 renders kvs pv"
proof (induction kvs)
  case Nil
  then show ?case by simp
next
  case (Cons kv kvs)
  obtain k v where kv: "kv = (k, v)" by (cases kv)
  from Cons.prems kv obtain t where t: "toString v = Inr t"
    using toString_defined [of v] by auto
  from Cons obtain pv where pv: "mapValues stringVal kvs = Inr pv" "list_all2 renders kvs pv"
    by auto
  have "renders (k, v) (k, if startsWith t ''0x'' then toLowerCase t else t)"
    using t by (simp add: renders_def)
  with pv t kv show ?case
    by (simp add: stringVal_toString)
qed

lemma renders_keys: "list_all2 renders kvs pv \<Longrightarrow> map fst pv = map fst kvs"
  by (induction rule: list_all2_induct) (auto simp: renders_def)

lemma renders_map_of:
  "list_all2 renders kvs pv \<Longrightarrow> map_of kvs key = Some v \<Longrightarrow>
   \<exists>s. map_of pv key = Some s \<and> renders (key, v) (key, s)"
  by (induction rule: list_all2_induct) (auto simp: renders_def split: if_splits)

lemma parseEventLog_returns:
  assumes "parseLog abiInterface log = Inr (Some parsedLog)"
    and "mapValues stringVal (p_values parsedLog) = Inr pv"
    and "coercible eth log"
  shows "\<exists>r. parseEventLog eth log abiInterface = Inr (Some r)
           \<and> e_address r = toLowerCase (l_address log)
           \<and> e_values r = pickBy (\<lambda>param key. \<not> js_includes (argumentRange pv) key \<and> key \<noteq> ''length'') pv"
proof -
  from assms(3) obtain bn ti li where
    "BigNumber_toNumber eth (l_blockNumber log) = Inr bn"
    "BigNumber_toNumber eth (l_transactionIndex log) = Inr ti"
    "BigNumber_toNumber eth (l_logIndex log) = Inr li"
    unfolding coercible_def
    by (metis isl_def sum.exhaust_sel sum.collapse(2))
  with assms(1,2) show ?thesis
    by (simp add: parseEventLog_def)
qed

lemma parseEventLog_undecoded:
  "\<not> decodes abiInterface log \<Longrightarrow> parseEventLog eth log abiInterface = Inr None"
  by (auto simp: decodes_def parseEventLog_def split: sum.splits option.splits)

lemma int_toString_nat: "int_toString (int n) = dec_digits n"
  by (simp add: int_toString_def)

lemma argumentRange_length:
  assumes "map_of pv ''length'' = Some (dec_digits k)"
  shows "argumentRange pv = index_keys k"
  using assms by (simp add: argumentRange_def Number_dec_digits index_keys_def)

lemma renders_nat: "renders (key, JNum (int k)) (key', s) \<Longrightarrow> s = dec_digits k"
  using startsWith_dec_digits [of k] by (auto simp: renders_def int_toString_nat)

lemma pickBy_keys:
  "fst ` set (pickBy (\<lambda>param key. P key) kvs) = {key \<in> fst ` set kvs. P key}"
  by (force simp: pickBy_def)

text \<open>
  Claim C1, as amended. When the log decodes, the decoder emitting the \<open>k\<close> positional
  duplicates under the keys \<open>0 .. k - 1\<close>, the named parameters, and \<open>length\<close> with the
  number \<open>k\<close>, the keys of the values of the record that parseEventLog returns are
  exactly the declared names that are not themselves \<open>length\<close> or one of those index
  keys: every index key and \<open>length\<close> are gone and every parameter with another name is
  kept.
\<close>

theorem parseEventLog_values_keys:
  assumes decoded: "parseLog abiInterface log = Inr (Some parsedLog)"
    and defined: "defined_values parsedLog"
    and numeric: "coercible eth log"
    and emitted: "set (map fst (p_values parsedLog)) = set (index_keys k) \<union> set names \<union> {''length''}"
    and len: "map_of (p_values parsedLog) ''length'' = Some (JNum (int k))"
  shows "\<exists>r. parseEventLog eth log abiInterface = Inr (Some r)
           \<and> set (map fst (e_values r)) = set names - (set (index_keys k) \<union> {''length''})"
proof -
  from defined obtain pv where
    pv: "mapValues stringVal (p_values parsedLog) = Inr pv" "list_all2 renders (p_values parsedLog) pv"
    using mapValues_stringVal unfolding defined_values_def by blast
  from pv(2) len obtain s where
    "map_of pv ''length'' = Some s" "renders (''length'', JNum (int k)) (''length'', s)"
    using renders_map_of by blast
  then have "map_of pv ''length'' = Some (dec_digits k)"
    using renders_nat by blast
  then have range: "argumentRange pv = index_keys k"
    by (rule argumentRange_length)
  from parseEventLog_returns [OF decoded pv(1) numeric] obtain r where
    r: "parseEventLog eth log abiInterface = Inr (Some r)"
       "e_values r = pickBy (\<lambda>param key. \<not> js_includes (argumentRange pv) key \<and> key \<noteq> ''length'') pv"
    by blast
  have "fst ` set pv = set (index_keys k) \<union> set names \<union> {''length''}"
    using renders_keys [OF pv(2)] emitted by (metis set_map)
  then have "fst ` set (e_values r) = set names - (set (index_keys k) \<union> {''length''})"
    unfolding r(2) range pickBy_keys js_includes_def by auto
  with r(1) show ?thesis by auto
qed

lemma ex_decoded: "parseLog ex_iface ex_log = Inr (Some ex_parsed)"
  by (simp add: ex_iface_def ex_log_def)

lemma ex_defined: "defined_values ex_parsed"
  by (simp add: defined_values_def ex_parsed_def)

lemma ex_coercible: "coercible ex_eth ex_log"
  by (simp add: coercible_def ex_eth_def ex_log_def)

lemma ex_normalized: "parseEventLog ex_eth ex_log ex_iface = Inr (Some ex_record)"
  by code_simp

lemma index_keys_3: "index_keys 3 = [''0'', ''1'', ''2'']"
  by code_simp

theorem parseEventLog_values_keys_witness:
  "parseLog ex_iface ex_log = Inr (Some ex_parsed) \<and> defined_values ex_parsed \<and> coercible ex_eth ex_log
   \<and> (\<exists>r. parseEventLog ex_eth ex_log ex_iface = Inr (Some r)
          \<and> set (map fst (e_values r)) = {''from'', ''to'', ''amount''})"
proof -
  have emitted: "set (map fst (p_values ex_parsed)) = set (index_keys 3) \<union> set [''from'', ''to'', ''amount''] \<union> {''length''}"
    by (auto simp: ex_parsed_def index_keys_3)
  have len: "map_of (p_values ex_parsed) ''length'' = Some (JNum (int 3))"
    by (simp add: ex_parsed_def)
  have named: "set [''from'', ''to'', ''amount''] - (set (index_keys 3) \<union> {''length''}) = {''from'', ''to'', ''amount''}"
    by (auto simp: index_keys_3)
  from parseEventLog_values_keys [OF ex_decoded ex_defined ex_coercible emitted len]
  obtain r where "parseEventLog ex_eth ex_log ex_iface = Inr (Some r)"
    and "set (map fst (e_values r)) = set [''from'', ''to'', ''amount''] - (set (index_keys 3) \<union> {''length''})"
    by blast
  then have "\<exists>r. parseEventLog ex_eth ex_log ex_iface = Inr (Some r)
          \<and> set (map fst (e_values r)) = {''from'', ''to'', ''amount''}"
    using named by auto
  then show ?thesis
    using ex_decoded ex_defined ex_coercible by simp
qed

text \<open>
  Claim C1 as stated fails: the event \<open>Resized(uint256 length)\<close> declares the one
  parameter \<open>length\<close>; its log decodes, and the record that parseEventLog returns has no
  key at all among its values, the declared name having gone with the synthetic key.
\<close>

theorem parseEventLog_drops_parameter_named_length:
  "parseLog ex_resized_iface ex_log = Inr (Some ex_resized_parsed)
   \<and> map_of (events ex_resized_iface) (p_signature ex_resized_parsed)
       = Some \<lparr>f_name = ''Resized'', f_inputs = [''length'']\<rparr>
   \<and> (\<exists>r. parseEventLog ex_eth ex_log ex_resized_iface = Inr (Some r) \<and> e_values r = [])"
proof -
  have "parseEventLog ex_eth ex_log ex_resized_iface
          = Inr (Some (ex_record\<lparr>e_name := ''Resized'', e_signature := ''Resized(uint256)'',
                                  e_topic := ''0x7a1c'', e_values := []\<rparr>))"
    by code_simp
  then show ?thesis
    by (simp add: ex_resized_iface_def ex_resized_parsed_def)
qed

lemma renders_numeric:
  assumes "renders (k, v) (k', s)" and "v = JNum n \<or> v = JBig n"
  shows "s = int_toString n"
proof -
  have "\<not> startsWith (int_toString n) ''0x''"
  proof (cases "n < 0")
    case True
    then show ?thesis by (simp add: int_toString_def startsWith_def)
  next
    case False
    then show ?thesis
      using startsWith_dec_digits [of "nat n"] by (simp add: int_toString_def)
  qed
  with assms show ?thesis by (auto simp: renders_def)
qed

text \<open>
  Claim C4. When the log decodes (no decoded value being \<open>null\<close> or \<open>undefined\<close>, the numeric
  fields of the log coercible), parseEventLog returns a record whose address is the
  log's address lowercased; every decoded value is rendered to its string form, a number
  or big number to its decimal numeral, lowercased when that string begins with \<open>0x\<close> and
  unchanged otherwise; the values of the record are these renderings, less the synthetic
  keys.
\<close>

theorem parseEventLog_renders_values:
  assumes decoded: "parseLog abiInterface log = Inr (Some parsedLog)"
    and defined: "defined_values parsedLog"
    and numeric: "coercible eth log"
  shows "\<exists>r pv. parseEventLog eth log abiInterface = Inr (Some r)
           \<and> e_address r = toLowerCase (l_address log)
           \<and> list_all2 renders (p_values parsedLog) pv
           \<and> (\<forall>i n. i < length pv \<and> (snd (p_values parsedLog ! i) = JNum n \<or> snd (p_values parsedLog ! i) = JBig n)
                  \<longrightarrow> snd (pv ! i) = int_toString n)
           \<and> e_values r = pickBy (\<lambda>param key. \<not> js_includes (argumentRange pv) key \<and> key \<noteq> ''length'') pv"
proof -
  from defined obtain pv where
    pv: "mapValues stringVal (p_values parsedLog) = Inr pv" "list_all2 renders (p_values parsedLog) pv"
    using mapValues_stringVal unfolding defined_values_def by blast
  from parseEventLog_returns [OF decoded pv(1) numeric] obtain r where
    r: "parseEventLog eth log abiInterface = Inr (Some r)"
       "e_address r = toLowerCase (l_address log)"
       "e_values r = pickBy (\<lambda>param key. \<not> js_includes (argumentRange pv) key \<and> key \<noteq> ''length'') pv"
    by blast
  have "snd (pv ! i) = int_toString n"
    if "i < length pv" and "snd (p_values parsedLog ! i) = JNum n \<or> snd (p_values parsedLog ! i) = JBig n"
    for i n
  proof -
    from pv(2) that(1) have "renders (p_values parsedLog ! i) (pv ! i)"
      by (simp add: list_all2_conv_all_nth)
    then have "renders (fst (p_values parsedLog ! i), snd (p_values parsedLog ! i)) (fst (pv ! i), snd (pv ! i))"
      by simp
    then show ?thesis
      using that(2) by (rule renders_numeric)
  qed
  with r pv(2) show ?thesis by blast
qed

theorem parseEventLog_renders_values_witness:
  "parseLog ex_iface ex_log = Inr (Some ex_parsed) \<and> defined_values ex_parsed \<and> coercible ex_eth ex_log
   \<and> (\<exists>r pv. parseEventLog ex_eth ex_log ex_iface = Inr (Some r)
          \<and> e_address r = ''0xabc''
          \<and> list_all2 renders (p_values ex_parsed) pv
          \<and> e_values r = [(''from'', ''0xdef''), (''to'', ''0xghi''), (''amount'', ''1000'')])"
proof -
  from parseEventLog_renders_values [OF ex_decoded ex_defined ex_coercible]
  obtain r pv where r: "parseEventLog ex_eth ex_log ex_iface = Inr (Some r)"
    and pv: "list_all2 renders (p_values ex_parsed) pv"
    by blast
  from r have "r = ex_record"
    by (simp add: ex_normalized)
  then have "e_address r = ''0xabc''"
    and "e_values r = [(''from'', ''0xdef''), (''to'', ''0xghi''), (''amount'', ''1000'')]"
    by (simp_all add: ex_record_def)
  with r pv show ?thesis
    using ex_decoded ex_defined ex_coercible by blast
qed

lemma parseEventLog_decoded:
  assumes "parseLog abiInterface log = Inr (Some parsedLog)"
    and "defined_values parsedLog" and "coercible eth log"
  shows "\<exists>r. parseEventLog eth log abiInterface = Inr (Some r)"
proof -
  from assms(2) obtain pv where "mapValues stringVal (p_values parsedLog) = Inr pv"
    using mapValues_stringVal unfolding defined_values_def by blast
  from parseEventLog_returns [OF assms(1) this assms(3)] show ?thesis by blast
qed

section \<open>Properties of parseEventLogs\<close>

lemma array_map_parseEventLog:
  assumes "\<forall>log \<in> set logs. \<forall>p. parseLog i log = Inr (Some p) \<longrightarrow> defined_values p \<and> coercible eth log"
  shows "\<exists>ros. array_map (\<lambda>log. parseEventLog eth log i) logs = Inr ros
           \<and> length (compact ros) = length (filter (decodes i) logs)"
  using assms
proof (induction logs)
  case Nil
  then show ?case by simp
next
  case (Cons log logs)
  then obtain ros where ros: "array_map (\<lambda>log. parseEventLog eth log i) logs = Inr ros"
      "length (compact ros) = length (filter (decodes i) logs)"
    by auto
  show ?case
  proof (cases "decodes i log")
    case True
    then obtain p where p: "parseLog i log = Inr (Some p)"
      by (auto simp: decodes_def split: sum.splits option.splits)
    with Cons.prems have "defined_values p" "coercible eth log" by auto
    from parseEventLog_decoded [OF p this] obtain r where
      "parseEventLog eth log i = Inr (Some r)" by blast
    with ros True show ?thesis by simp
  next
    case False
    then have "parseEventLog eth log i = Inr None"
      by (rule parseEventLog_undecoded)
    with ros False show ?thesis by simp
  qed
qed

lemma compact_parsed_count:
  assumes "\<forall>log \<in> set logs. \<forall>p. parseLog i log = Inr (Some p) \<longrightarrow> defined_values p \<and> coercible eth log"
  shows "\<exists>rs. compact_parsed eth i logs = Inr rs \<and> length rs = length (filter (decodes i) logs)"
  using array_map_parseEventLog [OF assms] by (auto simp: compact_parsed_def)

text \<open>
  Claim C5. A log whose decoding fails, the decoder throwing or returning nothing, makes
  parseEventLog return nothing and raise nothing. For a batch whose decoder \<open>i\<close> is the
  cached one or the one constructed on a miss, every log that decodes being well formed,
  parseEventLogs returns as many records as there are logs in the batch that decode.
\<close>

theorem undecodable_logs_are_dropped:
  assumes decoder: "case logs of
                      [] \<Rightarrow> True
                    | firstLog # rest \<Rightarrow>
                        abiInterfaces (l_address firstLog) = Some i
                        \<or> (abiInterfaces (l_address firstLog) = None \<and> Interface eth abi = Inr i)"
    and wellformed: "\<forall>log \<in> set logs. \<forall>p. parseLog i log = Inr (Some p) \<longrightarrow> defined_values p \<and> coercible eth log"
  shows "(\<forall>log. (\<exists>e. parseLog i log = Inl e) \<or> parseLog i log = Inr None
            \<longrightarrow> parseEventLog eth log i = Inr None)
       \<and> (\<exists>rs. fst (parseEventLogs eth logs abi abiInterfaces) = Inr rs
              \<and> length rs = length (filter (decodes i) logs))"
proof
  show "\<forall>log. (\<exists>e. parseLog i log = Inl e) \<or> parseLog i log = Inr None
          \<longrightarrow> parseEventLog eth log i = Inr None"
    by (auto simp: parseEventLog_def)
next
  show "\<exists>rs. fst (parseEventLogs eth logs abi abiInterfaces) = Inr rs
          \<and> length rs = length (filter (decodes i) logs)"
  proof (cases logs)
    case Nil
    then show ?thesis by (simp add: parseEventLogs_def)
  next
    case (Cons firstLog rest)
    with decoder have "fst (parseEventLogs eth logs abi abiInterfaces) = compact_parsed eth i logs"
      by (auto simp: parseEventLogs_def)
    with compact_parsed_count [OF wellformed] show ?thesis by simp
  qed
qed

lemma ex_other_undecoded: "parseEventLog ex_eth ex_other_log ex_iface = Inr None"
  by (simp add: parseEventLog_def ex_iface_def ex_other_log_def ex_log_def)

lemma ex_decodes:
  "decodes ex_iface ex_log" "\<not> decodes ex_iface ex_other_log" "\<not> decodes ex_iface ex_bad_log"
  by (simp_all add: decodes_def ex_iface_def ex_log_def ex_other_log_def ex_bad_log_def)

theorem undecodable_logs_are_dropped_witness:
  "parseLog ex_iface ex_bad_log = Inl (Error ''no matching event'')
   \<and> parseEventLog ex_eth ex_bad_log ex_iface = Inr None
   \<and> parseLog ex_iface ex_other_log = Inr None
   \<and> parseEventLog ex_eth ex_other_log ex_iface = Inr None
   \<and> length (filter (decodes ex_iface) [ex_log, ex_other_log, ex_bad_log, ex_log]) = 2
   \<and> (\<exists>rs. fst (parseEventLogs ex_eth [ex_log, ex_other_log, ex_bad_log, ex_log] ''erc20'' Map.empty) = Inr rs
          \<and> length rs = 2)"
proof -
  let ?logs = "[ex_log, ex_other_log, ex_bad_log, ex_log]"
  have decoder: "case ?logs of
                   [] \<Rightarrow> True
                 | firstLog # rest \<Rightarrow>
                     Map.empty (l_address firstLog) = Some ex_iface
                     \<or> (Map.empty (l_address firstLog) = None \<and> Interface ex_eth ''erc20'' = Inr ex_iface)"
    by (simp add: ex_eth_def)
  have wellformed: "\<forall>log \<in> set ?logs. \<forall>p. parseLog ex_iface log = Inr (Some p)
                      \<longrightarrow> defined_values p \<and> coercible ex_eth log"
    using ex_defined ex_coercible
    by (simp add: ex_iface_def ex_log_def ex_other_log_def ex_bad_log_def)
  have bad: "parseLog ex_iface ex_bad_log = Inl (Error ''no matching event'')"
    by (simp add: ex_iface_def ex_bad_log_def)
  have other: "parseLog ex_iface ex_other_log = Inr None"
    by (simp add: ex_iface_def ex_other_log_def)
  have count: "length (filter (decodes ex_iface) ?logs) = 2"
    by (simp add: ex_decodes)
  from undecodable_logs_are_dropped [OF decoder wellformed] bad other count
  show ?thesis by auto
qed

section \<open>The handler of a subscription\<close>

text \<open>
  Claim C8. With no parser, the handler of a pushed log invokes the callback with the
  one-element sequence that holds what parseEventLog returned for the log; when the log
  does not decode the callback is still invoked, and the one element is \<open>null\<close>.
\<close>

theorem callback_without_parser:
  "(parseEventLog eth log abiInterface = Inr parsedEventLog
      \<longrightarrow> on_log eth abiInterface (None :: (parser_arg \<Rightarrow> 'r) option) log = Inr (Sequence [parsedEventLog]))
   \<and> ((\<exists>e. parseLog abiInterface log = Inl e) \<or> parseLog abiInterface log = Inr None
      \<longrightarrow> on_log eth abiInterface (None :: (parser_arg \<Rightarrow> 'r) option) log = Inr (Sequence [None]))"
  by (auto simp: on_log_def parseEventLog_def)

theorem callback_without_parser_witness:
  "parseEventLog ex_eth ex_log ex_iface = Inr (Some ex_record)
   \<and> on_log ex_eth ex_iface (None :: (parser_arg \<Rightarrow> unit) option) ex_log = Inr (Sequence [Some ex_record])
   \<and> parseLog ex_iface ex_other_log = Inr None
   \<and> on_log ex_eth ex_iface (None :: (parser_arg \<Rightarrow> unit) option) ex_other_log = Inr (Sequence [None])"
proof -
  have other: "parseLog ex_iface ex_other_log = Inr None"
    by (simp add: ex_iface_def ex_other_log_def)
  from callback_without_parser [where ?'r = unit and eth = ex_eth and log = ex_log
         and abiInterface = ex_iface and parsedEventLog = "Some ex_record"]
       callback_without_parser [where ?'r = unit and eth = ex_eth and log = ex_other_log
         and abiInterface = ex_iface]
  show ?thesis
    using ex_normalized other by simp
qed

section \<open>The cache of decoders\<close>

lemma compact_parsed_results:
  "compact_parsed eth i logs = Inr rs \<Longrightarrow>
   (\<forall>log \<in> set logs. \<not> isl (parseEventLog eth log i))
   \<and> rs = compact (map (\<lambda>log. projr (parseEventLog eth log i)) logs)"
proof -
  have "array_map f xs = Inr ys \<Longrightarrow> (\<forall>x \<in> set xs. \<not> isl (f x)) \<and> ys = map (\<lambda>x. projr (f x)) xs"
    for f :: "raw_log \<Rightarrow> error + normalized_log option" and xs ys
    by (induction xs arbitrary: ys) (auto split: sum.splits)
  then show "compact_parsed eth i logs = Inr rs \<Longrightarrow> ?thesis"
    by (auto simp: compact_parsed_def split: sum.splits)
qed

lemma fetchLogs_answered:
  assumes "fetchLogs_logParams contractAddress topic fromBlock toBlock = Inr q"
  shows "fetchLogs eth contractAddress abi topic fromBlock toBlock parser provider c (Inr logs # later) =
     (case parseEventLogs eth logs abi c of
        (Inl e, c') \<Rightarrow> (Rejected e, c', [Send provider q])
      | (Inr parsedEventLogs, c') \<Rightarrow>
          (Resolved (case parser of
                       Some f \<Rightarrow> Transformed (f (LogList parsedEventLogs))
                     | None \<Rightarrow> Sequence (map Some parsedEventLogs)),
           c', [Send provider q]))"
  using assms by (simp add: fetchLogs.simps)

text \<open>
  Claim C10. An empty batch is returned as it is and the cache is not touched. For a
  batch that starts with \<open>firstLog\<close> the decoder is the one cached under the address of
  \<open>firstLog\<close>, or on a miss the one constructed from the interface description, which is
  then stored under that address: the address of the first log, whatever contract
  address fetchLogs was called with. That one decoder decodes every log of the batch,
  whatever the log's own address.
\<close>

theorem parseEventLogs_cache_key:
  fixes eth :: "'abi ethers" and parser :: "(parser_arg \<Rightarrow> 'r) option" and provider :: "'p option"
  shows
  "parseEventLogs eth [] abi c = (Inr [], c)
   \<and> (c (l_address firstLog) = Some i
        \<longrightarrow> parseEventLogs eth (firstLog # rest) abi c = (compact_parsed eth i (firstLog # rest), c))
   \<and> (c (l_address firstLog) = None \<and> Interface eth abi = Inr i
        \<longrightarrow> parseEventLogs eth (firstLog # rest) abi c
            = (compact_parsed eth i (firstLog # rest), c(l_address firstLog \<mapsto> i)))
   \<and> (c (l_address firstLog) = None \<and> Interface eth abi = Inr i
        \<and> fetchLogs_logParams contractAddress topic fromBlock toBlock = Inr q
        \<longrightarrow> fst (snd (fetchLogs eth contractAddress abi topic fromBlock toBlock parser provider c
                         (Inr (firstLog # rest) # later)))
            = c(l_address firstLog \<mapsto> i))
   \<and> (compact_parsed eth i logs = Inr rs
        \<longrightarrow> (\<forall>log \<in> set logs. \<not> isl (parseEventLog eth log i))
            \<and> rs = compact (map (\<lambda>log. projr (parseEventLog eth log i)) logs))"
proof (intro conjI impI)
  show "parseEventLogs eth [] abi c = (Inr [], c)"
    by (simp add: parseEventLogs_def)
next
  assume "c (l_address firstLog) = Some i"
  then show "parseEventLogs eth (firstLog # rest) abi c = (compact_parsed eth i (firstLog # rest), c)"
    by (simp add: parseEventLogs_def)
next
  assume "c (l_address firstLog) = None \<and> Interface eth abi = Inr i"
  then show "parseEventLogs eth (firstLog # rest) abi c
               = (compact_parsed eth i (firstLog # rest), c(l_address firstLog \<mapsto> i))"
    by (simp add: parseEventLogs_def)
next
  assume a: "c (l_address firstLog) = None \<and> Interface eth abi = Inr i
             \<and> fetchLogs_logParams contractAddress topic fromBlock toBlock = Inr q"
  then have "parseEventLogs eth (firstLog # rest) abi c
               = (compact_parsed eth i (firstLog # rest), c(l_address firstLog \<mapsto> i))"
    by (simp add: parseEventLogs_def)
  with a show "fst (snd (fetchLogs eth contractAddress abi topic fromBlock toBlock parser provider c
                           (Inr (firstLog # rest) # later)))
               = c(l_address firstLog \<mapsto> i)"
    by (simp add: fetchLogs_answered split: sum.splits)
next
  assume "compact_parsed eth i logs = Inr rs"
  then show "\<forall>log \<in> set logs. \<not> isl (parseEventLog eth log i)"
    and "rs = compact (map (\<lambda>log. projr (parseEventLog eth log i)) logs)"
    using compact_parsed_results by blast+
qed

lemma ex_batch: "compact_parsed ex_eth ex_iface [ex_log, ex_other_log] = Inr [ex_record]"
  by (simp add: compact_parsed_def ex_normalized ex_other_undecoded)

lemma ex_logParams:
  "fetchLogs_logParams (Some ''0x123'') (JArr [JStr ''0xddf252ad'']) (Some 989) (Some 999)
     = Inr \<lparr>q_address = Some ''0x123'', q_topics = [JStr ''0xddf252ad''],
            q_fromBlock = ''0x3dd'', q_toBlock = ''0x3e7''\<rparr>"
  by code_simp

theorem parseEventLogs_cache_key_witness:
  "l_address ex_log \<noteq> l_address ex_other_log
   \<and> parseEventLogs ex_eth [ex_log, ex_other_log] ''erc20'' Map.empty
       = (Inr [ex_record], [l_address ex_log \<mapsto> ex_iface])
   \<and> parseEventLogs ex_eth [ex_log, ex_other_log] ''another abi'' [l_address ex_log \<mapsto> ex_iface]
       = (Inr [ex_record], [l_address ex_log \<mapsto> ex_iface])
   \<and> fst (snd (fetchLogs ex_eth (Some ''0x123'') ''erc20'' (JArr [JStr ''0xddf252ad'']) (Some 989) (Some 999)
                  (None :: (parser_arg \<Rightarrow> unit) option) (None :: unit option) Map.empty
                  [Inr [ex_log, ex_other_log]]))
       = [l_address ex_log \<mapsto> ex_iface]"
proof -
  have miss: "Map.empty (l_address ex_log) = None \<and> Interface ex_eth ''erc20'' = Inr ex_iface"
    by (simp add: ex_eth_def)
  have hit: "[l_address ex_log \<mapsto> ex_iface] (l_address ex_log) = Some ex_iface"
    by simp
  have differ: "l_address ex_log \<noteq> l_address ex_other_log"
    by (simp add: ex_log_def ex_other_log_def)
  note key = parseEventLogs_cache_key [where ?'r = unit and ?'p = unit and eth = ex_eth and firstLog = ex_log and rest = "[ex_other_log]"
        and i = ex_iface and contractAddress = "Some ''0x123''" and topic = "JArr [JStr ''0xddf252ad'']"
        and fromBlock = "Some 989" and toBlock = "Some 999" and parser = None and provider = None
        and later = "[]"]
  from key [where c = Map.empty and abi = "''erc20''"] key [where c = "[l_address ex_log \<mapsto> ex_iface]" and abi = "''another abi''"]
  show ?thesis
    using miss hit differ ex_batch ex_logParams by simp
qed

section \<open>The retries of fetchLogs\<close>

lemma fetchLogs_failed:
  assumes "fetchLogs_logParams contractAddress topic fromBlock toBlock = Inr q"
  shows "fetchLogs eth contractAddress abi topic fromBlock toBlock parser provider c (Inl e # later) =
     (case fetchLogs eth contractAddress abi topic fromBlock toBlock parser None c later of
        (p, c', ios) \<Rightarrow> (p, c', Send provider q # SetTimeout 1000 # ios))"
  using assms by (simp add: fetchLogs.simps)

lemma fetchLogs_unanswered:
  assumes "fetchLogs_logParams contractAddress topic fromBlock toBlock = Inr q"
  shows "fetchLogs eth contractAddress abi topic fromBlock toBlock parser provider c [] =
     (Pending, c, [Send provider q])"
  using assms by (simp add: fetchLogs.simps)

text \<open>
  Claim C3. Whatever the number of failures of the transport before its first answer,
  fetchLogs sends the request again after a timer of 1000 milliseconds each time, every
  request carrying the same query parameters \<open>q\<close>, and settles with what the answered
  attempt gives: the normalised logs, transformed by the parser when there is one. While
  the transport only fails the promise stays pending with one more request sent: there
  is no limit. The first request goes through the provider when one is given, the later
  ones through the default transport.
\<close>

theorem fetchLogs_retries_until_answered:
  fixes eth :: "'abi ethers" and parser :: "(parser_arg \<Rightarrow> 'r) option" and provider :: "'p option"
  assumes q: "fetchLogs_logParams contractAddress topic fromBlock toBlock = Inr q"
  shows "fetchLogs eth contractAddress abi topic fromBlock toBlock parser provider c (map Inl errs @ Inr logs # later)
           = (case parseEventLogs eth logs abi c of
                (Inl e, c') \<Rightarrow>
                  (Rejected e, c', Send provider q # concat (map (\<lambda>e. [SetTimeout 1000, Send None q]) errs))
              | (Inr parsedEventLogs, c') \<Rightarrow>
                  (Resolved (case parser of
                               Some f \<Rightarrow> Transformed (f (LogList parsedEventLogs))
                             | None \<Rightarrow> Sequence (map Some parsedEventLogs)),
                   c', Send provider q # concat (map (\<lambda>e. [SetTimeout 1000, Send None q]) errs)))
       \<and> fetchLogs eth contractAddress abi topic fromBlock toBlock parser provider c (map Inl errs)
           = (Pending, c, Send provider q # concat (map (\<lambda>e. [SetTimeout 1000, Send None q]) errs))"
proof (induction errs arbitrary: provider)
  case Nil
  show ?case
    by (simp add: fetchLogs_answered [OF q] fetchLogs_unanswered [OF q] split: prod.splits sum.splits)
next
  case (Cons e errs)
  show ?case
    by (simp add: fetchLogs_failed [OF q] Cons.IH [of None] split: prod.splits sum.splits)
qed

lemma ex_retry_batch:
  "parseEventLogs ex_eth [ex_log, ex_other_log] ''erc20'' Map.empty
     = (Inr [ex_record], [l_address ex_log \<mapsto> ex_iface])"
proof -
  have "Interface ex_eth ''erc20'' = Inr ex_iface"
    by (simp add: ex_eth_def)
  then show ?thesis
    by (simp add: parseEventLogs_def ex_batch)
qed

theorem fetchLogs_retries_until_answered_witness:
  "fetchLogs_logParams (Some ''0x123'') (JArr [JStr ''0xddf252ad'']) (Some 989) (Some 999)
     = Inr \<lparr>q_address = Some ''0x123'', q_topics = [JStr ''0xddf252ad''],
            q_fromBlock = ''0x3dd'', q_toBlock = ''0x3e7''\<rparr>
   \<and> fetchLogs ex_eth (Some ''0x123'') ''erc20'' (JArr [JStr ''0xddf252ad'']) (Some 989) (Some 999)
         (None :: (parser_arg \<Rightarrow> unit) option) (None :: unit option) Map.empty
         [Inl (Error ''not ready''), Inl (Error ''not ready''), Inr [ex_log, ex_other_log]]
       = (Resolved (Sequence [Some ex_record]), [l_address ex_log \<mapsto> ex_iface],
          [Send None \<lparr>q_address = Some ''0x123'', q_topics = [JStr ''0xddf252ad''],
                       q_fromBlock = ''0x3dd'', q_toBlock = ''0x3e7''\<rparr>,
           SetTimeout 1000,
           Send None \<lparr>q_address = Some ''0x123'', q_topics = [JStr ''0xddf252ad''],
                       q_fromBlock = ''0x3dd'', q_toBlock = ''0x3e7''\<rparr>,
           SetTimeout 1000,
           Send None \<lparr>q_address = Some ''0x123'', q_topics = [JStr ''0xddf252ad''],
                       q_fromBlock = ''0x3dd'', q_toBlock = ''0x3e7''\<rparr>])"
proof -
  from fetchLogs_retries_until_answered [OF ex_logParams, where ?'r = unit and ?'p = unit
         and eth = ex_eth and abi = "''erc20''" and parser = None and provider = None and c = Map.empty
         and errs = "[Error ''not ready'', Error ''not ready'']" and logs = "[ex_log, ex_other_log]"
         and later = "[]"]
  show ?thesis
    using ex_logParams ex_retry_batch by simp
qed

section \<open>Properties of getEventTopics\<close>

lemma split_first: "\<exists>rest. split sep s = takeWhile (\<lambda>c. c \<noteq> sep) s # rest"
  by (induction s) auto

lemma baseName_takeWhile: "baseName key = takeWhile (\<lambda>c. c \<noteq> CHR ''('') key"
  using split_first [of "CHR ''(''" key] by (auto simp: baseName_def js_first_def)

lemma assign_keys: "fst ` set (assign kvs k v) = insert k (fst ` set kvs)"
  by (induction kvs) force+

lemma foldl_assign_keys:
  "fst ` set (foldl (\<lambda>result (key, val). assign result (f val key) val) acc obj)
     = fst ` set acc \<union> (\<lambda>(key, val). f val key) ` set obj"
proof (induction obj arbitrary: acc)
  case Nil
  then show ?case by simp
next
  case (Cons kv obj)
  obtain key val where kv: "kv = (key, val)" by (cases kv)
  have "fst ` set (foldl (\<lambda>result (key, val). assign result (f val key) val) (assign acc (f val key) val) obj)
          = insert (f val key) (fst ` set acc) \<union> (\<lambda>(key, val). f val key) ` set obj"
    by (simp only: Cons.IH assign_keys)
  then show ?case
    by (simp add: kv)
qed

lemma mapKeys_keys: "fst ` set (mapKeys f obj) = (\<lambda>(key, val). f val key) ` set obj"
  by (simp add: mapKeys_def foldl_assign_keys)

lemma mapped_events_absent:
  "map_of (mapKeys (\<lambda>val key. baseName key) evs) n = None \<longleftrightarrow> n \<notin> baseName ` fst ` set evs"
proof -
  have "fst ` set (mapKeys (\<lambda>val key. baseName key) evs) = baseName ` fst ` set evs"
    by (force simp: mapKeys_keys)
  then show ?thesis by (simp add: map_of_eq_None_iff)
qed

lemma uniq_into_distinct: "distinct seen \<Longrightarrow> distinct (uniq_into seen xs)"
  by (induction xs arbitrary: seen) auto

lemma uniq_into_set: "set (uniq_into seen xs) = set seen \<union> set xs"
  by (induction xs arbitrary: seen) auto

lemma uniq_into_subseq: "\<exists>ys. uniq_into seen xs = seen @ ys \<and> subseq ys xs"
proof (induction xs arbitrary: seen)
  case Nil
  then show ?case by simp
next
  case (Cons x xs)
  show ?case
  proof (cases "x \<in> set seen")
    case True
    with Cons [of seen] show ?thesis by auto
  next
    case False
    from Cons [of "seen @ [x]"] obtain ys where "uniq_into (seen @ [x]) xs = (seen @ [x]) @ ys" "subseq ys xs"
      by blast
    with False show ?thesis by auto
  qed
qed

lemma uniq_distinct: "distinct (uniq xs)"
  by (simp add: uniq_def uniq_into_distinct)

lemma uniq_set: "set (uniq xs) = set xs"
  by (simp add: uniq_def uniq_into_set)

lemma uniq_subseq: "subseq (uniq xs) xs"
  using uniq_into_subseq [of "[]" xs] by (auto simp: uniq_def)

lemma js_get_mapped_events:
  assumes "n \<notin> baseName ` fst ` set evs"
  shows "js_get (mapKeys (\<lambda>val key. baseName key) evs) n
           = (if n \<in> set prototype_keys then Inherited n else Missing)"
proof -
  from assms have "map_of (mapKeys (\<lambda>val key. baseName key) evs) n = None"
    by (simp add: mapped_events_absent)
  then show ?thesis by (simp add: js_get_def)
qed

lemma remdups_snoc: "remdups (zs @ [x]) = remdups (filter (\<lambda>y. y \<noteq> x) zs) @ [x]"
  by (induction zs) auto

lemma uniq_into_first_occurrences:
  "uniq_into seen xs = seen @ rev (remdups (rev (filter (\<lambda>x. x \<notin> set seen) xs)))"
proof (induction xs arbitrary: seen)
  case Nil
  then show ?case by simp
next
  case (Cons x xs)
  show ?case
  proof (cases "x \<in> set seen")
    case True
    with Cons [of seen] show ?thesis by simp
  next
    case False
    have "filter (\<lambda>y. y \<noteq> x) (rev (filter (\<lambda>y. y \<notin> set seen) xs))
            = rev (filter (\<lambda>y. y \<notin> set (seen @ [x])) xs)"
      by (simp add: rev_filter [symmetric] conj_commute)
    with False Cons [of "seen @ [x]"] show ?thesis
      by (simp add: remdups_snoc)
  qed
qed

lemma uniq_first_occurrences: "uniq xs = rev (remdups (rev xs))"
  by (simp add: uniq_def uniq_into_first_occurrences)

text \<open>
  Claim C7, as amended. For an event name that is the base name of no declared event,
  getEventTopics raises an error. Unless the name is that of a member which every object
  inherits, the message of the error lists the names of the declared events, each once,
  in the order in which the decoder's event collection first gives them: the list is the
  collection's names with every occurrence after the first removed. It is not sorted.
\<close>

theorem getEventTopics_unknown_event:
  assumes interface: "Interface eth (d_abi event) = Inr abiInterface"
    and absent: "d_name event \<notin> baseName ` fst ` set (events abiInterface)"
  shows "(\<exists>e. getEventTopics eth event = Inl e)
       \<and> (d_name event \<notin> set prototype_keys
            \<longrightarrow> getEventTopics eth event
                = Inl (Error (d_name event @ '' not an abi event, possible events are ''
                              @ join '', '' (possible_events abiInterface))))
       \<and> possible_events abiInterface = rev (remdups (rev (map f_name (map snd (events abiInterface)))))
       \<and> distinct (possible_events abiInterface)
       \<and> set (possible_events abiInterface) = f_name ` snd ` set (events abiInterface)
       \<and> subseq (possible_events abiInterface) (map f_name (map snd (events abiInterface)))"
proof -
  note mapped = js_get_mapped_events [OF absent]
  have raises: "\<exists>e. getEventTopics eth event = Inl e"
    using interface mapped by (simp add: getEventTopics_def)
  have message: "getEventTopics eth event
           = Inl (Error (d_name event @ '' not an abi event, possible events are ''
                         @ join '', '' (possible_events abiInterface)))"
    if "d_name event \<notin> set prototype_keys"
    using interface mapped that by (simp add: getEventTopics_def)
  have order: "possible_events abiInterface = rev (remdups (rev (map f_name (map snd (events abiInterface)))))"
    by (simp only: possible_events_def uniq_first_occurrences)
  have names: "set (possible_events abiInterface) = f_name ` snd ` set (events abiInterface)"
    by (simp add: possible_events_def uniq_set image_image)
  have "distinct (possible_events abiInterface)"
    and "subseq (possible_events abiInterface) (map f_name (map snd (events abiInterface)))"
    by (simp_all add: possible_events_def uniq_distinct uniq_subseq)
  with raises message order names show ?thesis
    by blast
qed

lemma ex_interface: "Interface ex_eth ''erc20'' = Inr ex_iface"
  by (simp add: ex_eth_def)

lemma ex_possible_events: "possible_events ex_iface = [''Transfer'', ''Approval'', ''Swap'']"
  by (simp add: possible_events_def ex_iface_def ex_events_def uniq_def)

lemma ex_unknown_message:
  "getEventTopics ex_eth ex_unknown
     = Inl (Error ''Mint not an abi event, possible events are Transfer, Approval, Swap'')"
  by code_simp

text \<open>
  Claim C7 as stated fails: with the events declared in the order Transfer, Approval,
  Swap, the message lists them in that order, which is sorted neither upwards nor
  downwards.
\<close>

theorem getEventTopics_unknown_event_unsorted:
  "getEventTopics ex_eth ex_unknown
     = Inl (Error (''Mint not an abi event, possible events are '' @ join '', '' (possible_events ex_iface)))
   \<and> possible_events ex_iface = [''Transfer'', ''Approval'', ''Swap'']
   \<and> \<not> sorted (possible_events ex_iface)
   \<and> \<not> sorted (rev (possible_events ex_iface))"
proof -
  have "\<not> sorted [''Transfer'', ''Approval'', ''Swap'']"
    and "\<not> sorted (rev [''Transfer'', ''Approval'', ''Swap''])"
    by code_simp+
  then show ?thesis
    by (simp add: ex_unknown_message ex_possible_events)
qed

theorem getEventTopics_unknown_event_witness:
  "Interface ex_eth (d_abi ex_unknown) = Inr ex_iface
   \<and> d_name ex_unknown \<notin> baseName ` fst ` set (events ex_iface)
   \<and> d_name ex_unknown \<notin> set prototype_keys
   \<and> getEventTopics ex_eth ex_unknown
       = Inl (Error ''Mint not an abi event, possible events are Transfer, Approval, Swap'')
   \<and> rev (remdups (rev (map f_name (map snd (events ex_iface))))) = [''Transfer'', ''Approval'', ''Swap'']
   \<and> distinct (possible_events ex_iface)
   \<and> possible_events ex_iface = [''Transfer'', ''Approval'', ''Swap'']"
proof -
  have interface: "Interface ex_eth (d_abi ex_unknown) = Inr ex_iface"
    by (simp add: ex_unknown_def ex_interface)
  have absent: "d_name ex_unknown \<notin> baseName ` fst ` set (events ex_iface)"
    by (simp add: ex_unknown_def ex_iface_def ex_events_def baseName_takeWhile)
  have own: "d_name ex_unknown \<notin> set prototype_keys"
    by (simp add: ex_unknown_def prototype_keys_def)
  from getEventTopics_unknown_event [OF interface absent]
  show ?thesis
    using interface absent own by (simp add: ex_possible_events ex_unknown_def)
qed

text \<open>The name \<open>toString\<close> is declared by no event and found on every object: the test of
  line 232 lets it pass and the error raised is a \<open>TypeError\<close>, without the list.\<close>

lemma getEventTopics_inherited_name:
  "d_name ex_inherited \<notin> baseName ` fst ` set (events ex_iface)
   \<and> getEventTopics ex_eth ex_inherited = Inl TypeError"
proof -
  have "d_name ex_inherited \<notin> baseName ` fst ` set (events ex_iface)"
    by (simp add: ex_inherited_def ex_unknown_def ex_iface_def ex_events_def baseName_takeWhile)
  moreover have "getEventTopics ex_eth ex_inherited = Inl TypeError"
    by code_simp
  ultimately show ?thesis by simp
qed

text \<open>For a declared event the array passed to the encoder is positional, in the order
  of the declaration; a supplied value is used when it is truthy; otherwise the entry is
  \<open>null\<close>, or the inherited member when the name of the input is that of one.\<close>

lemma pickBy_truthy_map_of:
  "distinct (map fst ps) \<Longrightarrow>
   map_of (pickBy (\<lambda>v k. truthy v) ps) n
     = (case map_of ps n of None \<Rightarrow> None | Some v \<Rightarrow> if truthy v then Some v else None)"
proof (induction ps)
  case Nil
  then show ?case by (simp add: pickBy_def)
next
  case (Cons kv ps)
  obtain k v where kv: "kv = (k, v)" by (cases kv)
  from Cons.prems kv have notin: "k \<notin> fst ` set ps" and "distinct (map fst ps)" by auto
  with Cons.IH have IH: "map_of (pickBy (\<lambda>v k. truthy v) ps) n
     = (case map_of ps n of None \<Rightarrow> None | Some v \<Rightarrow> if truthy v then Some v else None)"
    by simp
  from notin have none: "map_of ps k = None"
    by (simp add: map_of_eq_None_iff)
  show ?case
  proof (cases "n = k")
    case True
    with none IH kv show ?thesis by (simp add: pickBy_def)
  next
    case False
    with IH kv show ?thesis by (simp add: pickBy_def)
  qed
qed

lemma getEventTopics_known_event:
  assumes "Interface eth (d_abi event) = Inr abiInterface"
    and "map_of (mapKeys (\<lambda>val key. baseName key) (events abiInterface)) (d_name event) = Some abiEvent"
    and "d_params event = Some ps" and "distinct (map fst ps)"
  shows "getEventTopics eth event
           = encodeFilterTopics abiInterface (d_name event)
               (map (\<lambda>inputName.
                       case (case map_of ps inputName of
                               None \<Rightarrow> None
                             | Some v \<Rightarrow> if truthy v then Some v else None) of
                         Some v \<Rightarrow> v
                       | None \<Rightarrow> if inputName \<in> set prototype_keys then JProto inputName else JNull)
                    (f_inputs abiEvent))"
proof -
  have "(let v = (case js_get (pickBy (\<lambda>v k. truthy v) ps) n of
                    Missing \<Rightarrow> JUndefined | Inherited k \<Rightarrow> JProto k | Own v \<Rightarrow> v)
         in if v = JUndefined then JNull else v)
        = (case (case map_of ps n of None \<Rightarrow> None | Some v \<Rightarrow> if truthy v then Some v else None) of
             Some v \<Rightarrow> v
           | None \<Rightarrow> if n \<in> set prototype_keys then JProto n else JNull)" for n
    using assms(4) by (auto simp: js_get_def pickBy_truthy_map_of split: option.splits)
  with assms(1-3) show ?thesis
    by (simp add: getEventTopics_def js_get_def)
qed

lemma ex_swap_topics: "getEventTopics ex_eth ex_swap = Inr [JStr ''topic of Swap'', JNull, JStr ''0xAAA'']"
  by code_simp

text \<open>
  Claim C6 says that the positional array holds the caller's value for a parameter
  whenever one is supplied. On the filter \<open>nonce = 0\<close>, \<open>signer = 0xAAA\<close> for the event
  \<open>Swap(nonce, signer)\<close>, getEventTopics passes \<open>null\<close> for the nonce to the encoder: the
  supplied \<open>0\<close> is falsy and \<open>_.pickBy(..., _.identity)\<close> at line 226 has removed it.
\<close>

theorem getEventTopics_drops_falsy_value:
  "d_params ex_swap = Some [(''nonce'', JNum 0), (''signer'', JStr ''0xAAA'')]
   \<and> getEventTopics ex_eth ex_swap = encodeFilterTopics ex_iface ''Swap'' [JNull, JStr ''0xAAA'']
   \<and> getEventTopics ex_eth ex_swap \<noteq> encodeFilterTopics ex_iface ''Swap'' [JNum 0, JStr ''0xAAA'']"
  by (simp add: ex_swap_topics) (simp add: ex_swap_def ex_iface_def)

section \<open>Properties of subscribeToEvent and trackEvent\<close>

lemma getEventTopics_Interface:
  "getEventTopics eth event = Inr ts \<Longrightarrow> \<exists>i. Interface eth (d_abi event) = Inr i"
  by (cases "Interface eth (d_abi event)") (auto simp: getEventTopics_def)

text \<open>What subscribeToEvent sets off once the topics are derived: the historical fetch from
  a resolved starting block other than \<open>0\<close> up to \<open>blockNumber\<close>, then the subscription
  from \<open>blockNumber\<close>.\<close>

lemma subscribeToEvent_effects:
  assumes "getEventTopics eth event = Inr ts"
  shows "subscribeToEvent eth event blockNumber
           = Inr ((case (case d_fromBlock event of
                           Some fb \<Rightarrow> Some fb
                         | None \<Rightarrow> map_option (\<lambda>n. blockNumber - n) (d_backFillBlockCount event)) of
                     None \<Rightarrow> []
                   | Some start \<Rightarrow>
                       if start \<noteq> 0
                       then [OnFetchingHistoricalEvents,
                             FetchLogs (d_contract event) (d_abi event) (JArr ts) (Some start) (Some blockNumber)
                               (d_parser event)]
                       else [])
                  @ [EthSubscribe (subscribe_logParams (d_contract event) (JArr ts) (Some blockNumber))])"
proof -
  from getEventTopics_Interface [OF assms] obtain i where "Interface eth (d_abi event) = Inr i" ..
  with assms show ?thesis
    by (auto simp: subscribeToEvent_def subscribe_def fetchHistoricalLogs_def split: option.splits)
qed

lemma ex_transfer_topics:
  "getEventTopics ex_eth ex_transfer = Inr [JStr ''topic of Transfer'', JNull, JNull, JNull]"
  by code_simp

lemma ex_genesis_topics:
  "getEventTopics ex_eth ex_genesis = Inr [JStr ''topic of Transfer'', JNull, JNull, JNull]"
  by code_simp

lemma trackEvent_backfill_scenario:
  "trackEvent ex_eth [] ex_transfer (Inr 1000)
     = (Inr True, [ex_transfer],
        [OnFetchingHistoricalEvents,
         FetchLogs (Some ''0xABC'') ''erc20'' (JArr [JStr ''topic of Transfer'', JNull, JNull, JNull])
           (Some 989) (Some 999) None,
         EthSubscribe \<lparr>s_address = Some ''0xABC'',
                       s_topics = Some (JArr [JStr ''topic of Transfer'', JNull, JNull, JNull]),
                       s_fromBlock = Some 999\<rparr>])"
  by (simp add: trackEvent_def subscribeToEvent_effects [OF ex_transfer_topics])
     (simp add: ex_transfer_def subscribe_logParams_def or_undefined_def)

text \<open>
  Claim C2 says that a historical fetch over the range from the starting block to
  \<open>blockNumber\<close> is triggered whenever a starting block was resolved. For the descriptor
  with \<open>fromBlock: 0\<close> and the head block 1000, the starting block resolves to \<open>0\<close>, the
  test of line 207 takes it for absent, and trackEvent only opens the subscription at
  block 999: no historical fetch over the blocks 0 to 999 is triggered.
\<close>

theorem trackEvent_skips_backfill_from_genesis:
  "d_fromBlock ex_genesis = Some 0
   \<and> trackEvent ex_eth [] ex_genesis (Inr 1000)
       = (Inr True, [ex_genesis],
          [EthSubscribe \<lparr>s_address = Some ''0xABC'',
                         s_topics = Some (JArr [JStr ''topic of Transfer'', JNull, JNull, JNull]),
                         s_fromBlock = Some 999\<rparr>])"
  by (simp add: trackEvent_def subscribeToEvent_effects [OF ex_genesis_topics])
     (simp add: ex_genesis_def ex_transfer_def subscribe_logParams_def or_undefined_def)

section \<open>The block bounds of fetchLogs\<close>

lemma digit_char_0: "digit_char 0 = CHR ''0''"
  by code_simp

lemma digit_char_zero:
  assumes "d < 16"
  shows "digit_char d = CHR ''0'' \<longleftrightarrow> d = 0"
proof
  assume "digit_char d = CHR ''0''"
  then have "(of_char (digit_char d) :: nat) = 48" by simp
  with of_char_digit_char [OF assms] show "d = 0"
    by (simp split: if_splits)
next
  assume "d = 0"
  then show "digit_char d = CHR ''0''" by (simp add: digit_char_0)
qed

lemma hex_digits_leading:
  "0 < n \<Longrightarrow> hex_digits n \<noteq> [] \<and> hd (hex_digits n) \<noteq> CHR ''0''"
proof (induction n rule: hex_digits.induct)
  case (1 n)
  show ?case
  proof (cases "n < 16")
    case True
    with 1(2) show ?thesis
      by (simp add: hex_digits.simps [of n] digit_char_zero)
  next
    case False
    then have "0 < n div 16" by simp
    with 1(1) False have "hex_digits (n div 16) \<noteq> [] \<and> hd (hex_digits (n div 16)) \<noteq> CHR ''0''"
      by simp
    with False show ?thesis
      by (simp add: hex_digits.simps [of n])
  qed
qed

lemma hex_digits_hex: "list_all (\<lambda>c. digit_value c \<noteq> None) (hex_digits n)"
proof (induction n rule: hex_digits.induct)
  case (1 n)
  show ?case
  proof (cases "n < 16")
    case True
    then show ?thesis by (simp add: hex_digits.simps [of n] digit_value_digit_char)
  next
    case False
    with 1 have "list_all (\<lambda>c. digit_value c \<noteq> None) (hex_digits (n div 16))" by simp
    with False show ?thesis
      by (simp add: hex_digits.simps [of n] digit_value_digit_char)
  qed
qed

text \<open>A block number that is positive and safe is encoded as \<open>0x\<close> and its hexadecimal
  digits, the first of which is not \<open>0\<close>; an absent one is \<open>latest\<close>; a negative one
  makes \<open>hexlify\<close> throw.\<close>

lemma blockParam_positive:
  assumes "0 < n" and "n < 2 ^ 53 - 1"
  shows "blockParam (Some n) = Inr (''0x'' @ hex_digits (nat n))"
proof -
  let ?hex = "hex_digits (nat n)"
  let ?padded = "if odd (length ?hex) then CHR ''0'' # ?hex else ?hex"
  from assms have lead: "?hex \<noteq> []" "hd ?hex \<noteq> CHR ''0''"
    using hex_digits_leading [of "nat n"] by auto
  have hexlify: "hexlify n = Inr (''0x'' @ ?padded)"
    using assms by (simp add: hexlify_def Let_def)
  have "digit_value CHR ''0'' \<noteq> None"
    by (simp add: digit_value_def)
  then have "isHexString (''0x'' @ ?padded)"
    using hex_digits_hex [of "nat n"] by (simp add: isHexString_def)
  moreover have "dropWhile (\<lambda>c. c = CHR ''0'') ?padded = ?hex"
    using lead by (cases ?hex) auto
  ultimately have "hexStripZeros (''0x'' @ ?padded) = Inr (''0x'' @ ?hex)"
    by (simp add: hexStripZeros_def)
  with hexlify assms show ?thesis
    by (simp add: blockParam_def)
qed

lemma blockParam_absent: "blockParam None = Inr ''latest''"
  by (simp add: blockParam_def)

text \<open>
  Claim C9 says that a block bound is the minimal hexadecimal numeral of the block number
  whenever the number was provided. For \<open>fromBlock = 0\<close> and \<open>toBlock = 100\<close> the query
  of fetchLogs has \<open>fromBlock: 'latest'\<close> and \<open>toBlock: '0x64'\<close>: the test of line 101 takes
  the provided \<open>0\<close> for absent.
\<close>

theorem fetchLogs_block_zero_is_latest:
  "fetchLogs_logParams (Some ''0xABC'') (JStr ''0xddf252ad'') (Some 0) (Some 100)
     = Inr \<lparr>q_address = Some ''0xABC'', q_topics = [JStr ''0xddf252ad''],
            q_fromBlock = ''latest'', q_toBlock = ''0x64''\<rparr>"
  by code_simp

lemma blockParam_negative: "n < 0 \<Longrightarrow> blockParam (Some n) = Inl (Error ''invalid hexlify value'')"
  by (simp add: blockParam_def hexlify_def)
end
